theory Spec2Isabelle
  imports Complex_Main
begin

section \<open>JavaScript values\<close>

text \<open>
  The widget and the proxy function work on values parsed from JSON. A number is a double:
  every finite double is a rational, and comparing two doubles compares the rationals, so
  a finite number is kept as a \<^typ>\<open>rat\<close> (negative zero is zero). What a double
  operation rounds (the product in \<^verbatim>\<open>audit.score * 100\<close>) and what the language
  derives from the text of a string or from the methods of an object (the conversion of a
  string, an array or an object to a number) is not computed here: it is taken from a
  \<open>runtime\<close> record, and every theorem holds for every runtime.

  Strings are sequences of code units below 256 (Latin-1).
\<close>

datatype jsnum = NaN | NegInf | Fin rat | PosInf

datatype jsval =
    JUndefined
  | JNull
  | JBool bool
  | JNum jsnum
  | JStr string
  | JArr "jsval list"
  | JObj "(string \<times> jsval) list"
  | JNative string

datatype error = TypeError | RangeError | SyntaxError | URIError

record runtime =
  StringToNumber :: "string \<Rightarrow> jsnum"
  ObjectToNumber :: "jsval \<Rightarrow> error + jsnum"
  NumberMultiply :: "jsnum \<Rightarrow> jsnum \<Rightarrow> jsnum"

text \<open>ToBoolean: what \<^verbatim>\<open>&&\<close>, \<^verbatim>\<open>||\<close>, \<^verbatim>\<open>!\<close> and \<^verbatim>\<open>if\<close> test.\<close>

fun truthy :: "jsval \<Rightarrow> bool" where
  "truthy JUndefined = False"
| "truthy JNull = False"
| "truthy (JBool b) = b"
| "truthy (JNum n) = (n \<noteq> NaN \<and> n \<noteq> Fin 0)"
| "truthy (JStr s) = (s \<noteq> [])"
| "truthy (JArr xs) = True"
| "truthy (JObj ps) = True"
| "truthy (JNative k) = True"

fun typeof :: "jsval \<Rightarrow> string" where
  "typeof JUndefined = ''undefined''"
| "typeof JNull = ''object''"
| "typeof (JBool b) = ''boolean''"
| "typeof (JNum n) = ''number''"
| "typeof (JStr s) = ''string''"
| "typeof (JArr xs) = ''object''"
| "typeof (JObj ps) = ''object''"
| "typeof (JNative k) = (if k = ''__proto__'' then ''object'' else ''function'')"

text \<open>
  Reading a property of a plain object: an own property (the first pair with the key), else
  what the object inherits from \<^verbatim>\<open>Object.prototype\<close> (a built-in, kept as
  \<open>JNative\<close> with its key), else \<^verbatim>\<open>undefined\<close>.
\<close>

definition Object_prototype_keys :: "string list" where
  "Object_prototype_keys =
     [''constructor'', ''__defineGetter__'', ''__defineSetter__'', ''hasOwnProperty'',
      ''__lookupGetter__'', ''__lookupSetter__'', ''isPrototypeOf'',
      ''propertyIsEnumerable'', ''toString'', ''valueOf'', ''__proto__'',
      ''toLocaleString'']"

definition obj_get :: "(string \<times> jsval) list \<Rightarrow> string \<Rightarrow> jsval" where
  "obj_get ps k =
     (case map_of ps k of
        Some v \<Rightarrow> v
      | None \<Rightarrow> if k \<in> set Object_prototype_keys then JNative k else JUndefined)"

text \<open>
  \<^verbatim>\<open>v.k\<close> and \<^verbatim>\<open>v[k]\<close>. Reading a property of \<^verbatim>\<open>null\<close> or \<^verbatim>\<open>undefined\<close>
  throws. The keys the two source files read (the audit identifiers, \<^verbatim>\<open>score\<close>,
  \<^verbatim>\<open>title\<close>, \<^verbatim>\<open>description\<close>, \<^verbatim>\<open>displayValue\<close>, \<^verbatim>\<open>text\<close>,
  \<^verbatim>\<open>learnMoreUrl\<close>, \<^verbatim>\<open>url\<close>, \<^verbatim>\<open>strategy\<close>, \<^verbatim>\<open>categories\<close>,
  \<^verbatim>\<open>error\<close>, \<^verbatim>\<open>message\<close>) are no property of a boolean, a number, a string, an
  array or a function, so there the result is \<^verbatim>\<open>undefined\<close>.
\<close>

fun get :: "jsval \<Rightarrow> string \<Rightarrow> error + jsval" where
  "get JUndefined k = Inl TypeError"
| "get JNull k = Inl TypeError"
| "get (JObj ps) k = Inr (obj_get ps k)"
| "get v k = Inr JUndefined"

text \<open>ToNumber, and the comparison \<^verbatim>\<open>v < c\<close> with a numeric literal \<open>c\<close>.\<close>

fun ToNumber :: "runtime \<Rightarrow> jsval \<Rightarrow> error + jsnum" where
  "ToNumber rt JUndefined = Inr NaN"
| "ToNumber rt JNull = Inr (Fin 0)"
| "ToNumber rt (JBool b) = Inr (Fin (if b then 1 else 0))"
| "ToNumber rt (JNum n) = Inr n"
| "ToNumber rt (JStr s) = Inr (StringToNumber rt s)"
| "ToNumber rt v = ObjectToNumber rt v"

fun num_less :: "jsnum \<Rightarrow> jsnum \<Rightarrow> bool" where
  "num_less NaN y = False"
| "num_less x NaN = False"
| "num_less PosInf y = False"
| "num_less x NegInf = False"
| "num_less NegInf y = True"
| "num_less x PosInf = True"
| "num_less (Fin a) (Fin b) = (a < b)"

definition js_less :: "runtime \<Rightarrow> jsval \<Rightarrow> rat \<Rightarrow> error + bool" where
  "js_less rt v c =
     (case ToNumber rt v of Inl e \<Rightarrow> Inl e | Inr n \<Rightarrow> Inr (num_less n (Fin c)))"

text \<open>\<^verbatim>\<open>Math.round\<close>: the nearest integer, a tie going up.\<close>

fun Math_round :: "jsnum \<Rightarrow> jsnum" where
  "Math_round (Fin r) = Fin (of_int \<lfloor>r + 1 / 2\<rfloor>)"
| "Math_round n = n"

section \<open>The recommendation extractor (js/lighthouse-widget.js)\<close>

subsection \<open>getImpactLevel\<close>

definition getImpactLevel :: "runtime \<Rightarrow> jsval \<Rightarrow> error + string" where
  "getImpactLevel rt sc =
     (if sc = JNum (Fin 0) then Inr ''High''
      else case js_less rt sc (1 / 2) of
             Inl e \<Rightarrow> Inl e
           | Inr True \<Rightarrow> Inr ''Medium''
           | Inr False \<Rightarrow> Inr ''Low'')"

subsection \<open>processDescription\<close>

text \<open>
  The class \<^verbatim>\<open>\s\<close> and what \<^verbatim>\<open>trim\<close> removes, among the code units below 256:
  tab, line feed, vertical tab, form feed, carriage return, space and no-break space.
\<close>

definition is_space :: "char \<Rightarrow> bool" where
  "is_space c = (c \<in> set [CHR 0x09, CHR 0x0A, CHR 0x0B, CHR 0x0C, CHR 0x0D, CHR 0x20, CHR 0xA0])"

text \<open>The class \<^verbatim>\<open>[^\s).,;]\<close> of \<^verbatim>\<open>urlRegex\<close>.\<close>

definition url_char :: "char \<Rightarrow> bool" where
  "url_char c = (\<not> is_space c \<and> c \<notin> set '').,;'')"

text \<open>The class \<^verbatim>\<open>[.,)\s]\<close> of the trailing clean-up.\<close>

definition trailing_char :: "char \<Rightarrow> bool" where
  "trailing_char c = (c \<in> set ''.,)'' \<or> is_space c)"

text \<open>
  \<^verbatim>\<open>/(https?:\/\/[^\s).,;]+)/\<close> tried at the start of \<open>s\<close>: the match and what follows
  it. The body is greedy, and no shorter scheme can match once \<^verbatim>\<open>https://\<close> has.
\<close>

definition url_at :: "string \<Rightarrow> (string \<times> string) option" where
  "url_at s =
     (let k = (if take 8 s = ''https://'' then 8 else if take 7 s = ''http://'' then 7 else 0);
          body = takeWhile url_char (drop k s)
      in if k = 0 \<or> body = [] then None
         else Some (take k s @ body, dropWhile url_char (drop k s)))"

text \<open>\<^verbatim>\<open>description.match(urlRegex)\<close> with the flag g: every match, left to right.\<close>

function match_urlRegex :: "string \<Rightarrow> string list" where
  "match_urlRegex [] = []"
| "match_urlRegex (c # cs) =
     (case url_at (c # cs) of
        Some (u, r) \<Rightarrow> u # match_urlRegex r
      | None \<Rightarrow> match_urlRegex cs)"
  by pat_completeness auto
termination
proof (relation "measure length")
  fix c :: char and cs x u r
  assume "url_at (c # cs) = Some x" and "(u, r) = x"
  then obtain n where "r = dropWhile url_char (drop n cs)"
    by (auto simp: url_at_def Let_def split: if_splits)
  moreover have "length (dropWhile url_char (drop n cs)) \<le> length (drop n cs)"
    by (rule length_dropWhile_le)
  ultimately show "(r, c # cs) \<in> measure length" by simp
qed simp_all

text \<open>\<^verbatim>\<open>description.replace(urlRegex, '')\<close>: the text without the matches.\<close>

function replace_urlRegex :: "string \<Rightarrow> string" where
  "replace_urlRegex [] = []"
| "replace_urlRegex (c # cs) =
     (case url_at (c # cs) of
        Some (u, r) \<Rightarrow> replace_urlRegex r
      | None \<Rightarrow> c # replace_urlRegex cs)"
  by pat_completeness auto
termination
proof (relation "measure length")
  fix c :: char and cs x u r
  assume "url_at (c # cs) = Some x" and "(u, r) = x"
  then obtain n where "r = dropWhile url_char (drop n cs)"
    by (auto simp: url_at_def Let_def split: if_splits)
  moreover have "length (dropWhile url_char (drop n cs)) \<le> length (drop n cs)"
    by (rule length_dropWhile_le)
  ultimately show "(r, c # cs) \<in> measure length" by simp
qed simp_all

definition trim :: "string \<Rightarrow> string" where
  "trim s = rev (dropWhile is_space (rev (dropWhile is_space s)))"

text \<open>
  \<^verbatim>\<open>s.replace(/[.,)\s]+$/, '')\<close>: the leftmost match is the longest run of the class
  that ends the string.
\<close>

definition replace_trailing :: "string \<Rightarrow> string" where
  "replace_trailing s = rev (dropWhile trailing_char (rev s))"

text \<open>
  \<^verbatim>\<open>description.match\<close> is a function only when the description is a string: on any
  other truthy value the call throws.
\<close>

definition processDescription :: "jsval \<Rightarrow> error + jsval" where
  "processDescription desc =
     (if \<not> truthy desc then Inr (JStr [])
      else case desc of
        JStr s \<Rightarrow>
          (let urls = match_urlRegex s in
           if urls = [] then Inr (JStr s)
           else
             (let cleanDescription = trim (replace_urlRegex s);
                  cleanDescription' = trim (replace_trailing cleanDescription)
              in Inr (JObj [(''text'', JStr cleanDescription'),
                            (''learnMoreUrl'', JStr (hd urls))])))
      | _ \<Rightarrow> Inl TypeError)"

subsection \<open>getFriendlyDescription\<close>

text \<open>
  The properties of the object literal \<^verbatim>\<open>friendlyDescriptions\<close>, in the order the
  source declares them. The key \<^verbatim>\<open>document-title\<close> is declared twice.
\<close>

definition friendlyDescriptions_entries :: "(string \<times> string) list" where
  "friendlyDescriptions_entries =
     [
      (''largest-contentful-paint'',
       ''The main content on your page takes too long to load. This affects how quickly users can see and interact with your site.''),
      (''first-contentful-paint'',
       ''Your page takes too long to show any content to users. Faster loading improves user experience.''),
      (''speed-index'',
       ''Your page content loads slowly. Optimizing images and code can make your site feel much faster.''),
      (''cumulative-layout-shift'',
       ''Elements on your page move around while loading, which can be frustrating for users trying to click buttons or read content.''),
      (''total-blocking-time'',
       ''Scripts on your page are preventing users from interacting with it quickly. Optimizing JavaScript will make your site more responsive.''),
      (''render-blocking-resources'',
       ''Some files are preventing your page from loading quickly. Moving or optimizing these files will speed up your site.''),
      (''unused-css-rules'',
       ''Your site is loading CSS styles that aren't being used, which slows down loading time.''),
      (''unused-javascript'',
       ''Your site is loading JavaScript code that isn't being used, which affects performance.''),
      (''modern-image-formats'',
       ''Your images could be in more efficient formats (like WebP) to load faster and use less bandwidth.''),
      (''efficiently-encode-images'',
       ''Your images aren't optimized, making them larger than necessary and slower to load.''),
      (''offscreen-images'',
       ''Images that aren't visible when the page first loads should be loaded later to improve initial loading speed.''),
      (''unminified-css'',
       ''Your CSS files contain extra spaces and comments that make them larger than necessary.''),
      (''unminified-javascript'',
       ''Your JavaScript files contain extra spaces and comments that make them larger than necessary.''),
      (''server-response-time'',
       ''Your web server takes too long to respond, which delays page loading for all visitors.''),
      (''uses-text-compression'',
       ''Your text files aren't compressed, making them take longer to download.''),
      (''uses-rel-preconnect'',
       ''Your site could load faster by connecting to external services earlier in the loading process.''),
      (''uses-rel-preload'',
       ''Important resources could be loaded earlier to improve page speed.''),
      (''font-display'',
       ''Your custom fonts could be set up to show text faster while the fonts are loading.''),
      (''color-contrast'',
       ''Some text on your site is hard to read due to insufficient color contrast, making it difficult for users with vision impairments.''),
      (''image-alt'',
       ''Some images are missing descriptions, making them inaccessible to screen readers and users with visual impairments.''),
      (''label'',
       ''Some form fields are missing labels, making it difficult for users with disabilities to understand what information to enter.''),
      (''link-name'',
       ''Some links don't have descriptive text, making it unclear where they lead for screen reader users.''),
      (''button-name'',
       ''Some buttons don't have clear names, making it confusing for users with disabilities to understand their purpose.''),
      (''document-title'',
       ''Your page is missing a title or has a generic title, which affects accessibility and SEO.''),
      (''html-has-lang'',
       ''Your page doesn't specify its language, which can cause problems for screen readers and translation tools.''),
      (''meta-viewport'',
       ''Your page isn't set up properly for mobile devices, which can cause accessibility and usability issues.''),
      (''heading-order'',
       ''Your page headings aren't in the correct order, which can confuse screen reader users navigating your content.''),
      (''skip-link'',
       ''Your page is missing a \"skip to main content\" link, making navigation difficult for keyboard users.''),
      (''is-on-https'',
       ''Your website isn't using HTTPS, which means data sent between users and your site isn't encrypted and secure.''),
      (''uses-http2'',
       ''Your server could use HTTP/2 to load your site faster and more efficiently.''),
      (''no-vulnerable-libraries'',
       ''Your site is using outdated code libraries that have known security vulnerabilities.''),
      (''external-anchors-use-rel-noopener'',
       ''Links to other websites should be set up more securely to protect your users.''),
      (''geolocation-on-start'',
       ''Your site asks for location permission immediately, which can be annoying and suspicious to users.''),
      (''notification-on-start'',
       ''Your site asks for notification permission immediately, which creates a poor user experience.''),
      (''no-document-write'',
       ''Your site uses outdated JavaScript methods that can slow down page loading.''),
      (''js-libraries'',
       ''Your site is using outdated JavaScript libraries that should be updated for better performance and security.''),
      (''document-title'',
       ''Your page title is missing or not optimized, which hurts your search engine rankings.''),
      (''meta-description'',
       ''Your page is missing a meta description, which is important for search engine results.''),
      (''http-status-code'',
       ''Your page isn't returning the correct status code, which can hurt search engine indexing.''),
      (''link-text'',
       ''Some of your links use generic text like \"click here\" instead of descriptive text that helps with SEO.''),
      (''is-crawlable'',
       ''Search engines are being blocked from indexing your page, which will hurt your search rankings.''),
      (''robots-txt'',
       ''Your robots.txt file has issues that might prevent search engines from properly indexing your site.''),
      (''hreflang'',
       ''If your site serves multiple languages, it needs proper language tags for international SEO.''),
      (''canonical'',
       ''Your page needs canonical tags to prevent duplicate content issues in search results.''),
      (''font-size'',
       ''Some text on your page is too small for mobile users, which can hurt mobile search rankings.''),
      (''tap-targets'',
       ''Some buttons and links on mobile are too small or too close together, making them hard to tap.'')
     ]"

text \<open>
  An object literal defines its properties one after the other: a later definition of a
  key replaces an earlier one.
\<close>

definition object_literal :: "(string \<times> 'v) list \<Rightarrow> (string \<rightharpoonup> 'v)" where
  "object_literal ps = foldl (\<lambda>m (k, v). m(k \<mapsto> v)) Map.empty ps"

text \<open>\<^verbatim>\<open>friendlyDescriptions[auditId]\<close>\<close>

definition friendlyDescriptions :: "string \<Rightarrow> jsval" where
  "friendlyDescriptions k =
     (case object_literal friendlyDescriptions_entries k of
        Some t \<Rightarrow> JStr t
      | None \<Rightarrow> if k \<in> set Object_prototype_keys then JNative k else JUndefined)"

text \<open>\<^verbatim>\<open>return friendlyDescriptions[auditId] || originalDescription\<close>\<close>

definition getFriendlyDescription :: "string \<Rightarrow> jsval \<Rightarrow> jsval" where
  "getFriendlyDescription auditId originalDescription =
     (let f = friendlyDescriptions auditId in if truthy f then f else originalDescription)"

subsection \<open>extractApiRecommendations\<close>

record recommendation =
  title :: jsval
  description :: jsval
  learnMoreUrl :: jsval
  impact :: string
  score :: jsnum
  displayValue :: jsval

record recommendations =
  performance :: "recommendation list"
  accessibility :: "recommendation list"
  bestPractices :: "recommendation list"
  seo :: "recommendation list"

definition performanceAudits :: "string list" where
  "performanceAudits =
     [''largest-contentful-paint'', ''first-contentful-paint'', ''speed-index'',
      ''cumulative-layout-shift'', ''total-blocking-time'', ''render-blocking-resources'',
      ''unused-css-rules'', ''unused-javascript'', ''modern-image-formats'',
      ''efficiently-encode-images'', ''offscreen-images'', ''unminified-css'',
      ''unminified-javascript'', ''server-response-time'', ''uses-text-compression'',
      ''uses-rel-preconnect'', ''uses-rel-preload'', ''font-display'']"

definition accessibilityAudits :: "string list" where
  "accessibilityAudits =
     [''color-contrast'', ''image-alt'', ''label'', ''link-name'',
      ''button-name'', ''document-title'', ''html-has-lang'',
      ''meta-viewport'', ''heading-order'', ''skip-link'',
      ''focus-traps'', ''focusable-controls'', ''interactive-element-affordance'']"

definition bestPracticesAudits :: "string list" where
  "bestPracticesAudits =
     [''is-on-https'', ''uses-http2'', ''no-vulnerable-libraries'',
      ''external-anchors-use-rel-noopener'', ''geolocation-on-start'',
      ''notification-on-start'', ''no-document-write'', ''js-libraries'']"

definition seoAudits :: "string list" where
  "seoAudits =
     [''document-title'', ''meta-description'', ''http-status-code'',
      ''link-text'', ''is-crawlable'', ''robots-txt'', ''image-alt'',
      ''hreflang'', ''canonical'', ''font-size'', ''tap-targets'']"

text \<open>An exception ends the computation: the rest runs on a value only.\<close>

definition andThen :: "error + 'a \<Rightarrow> ('a \<Rightarrow> error + 'b) \<Rightarrow> error + 'b" where
  "andThen r f = (case r of Inl e \<Rightarrow> Inl e | Inr v \<Rightarrow> f v)"

text \<open>
  The test of the callbacks, with the short circuit of \<^verbatim>\<open>&&\<close>:
  \<^verbatim>\<open>audit && audit.score !== null && audit.score < 1 && audit.title && audit.description\<close>
\<close>

definition qualifies :: "runtime \<Rightarrow> jsval \<Rightarrow> error + bool" where
  "qualifies rt audit =
     (if \<not> truthy audit then Inr False
      else andThen (get audit ''score'') (\<lambda>sc.
        if sc = JNull then Inr False
        else andThen (js_less rt sc 1) (\<lambda>lt.
          if \<not> lt then Inr False
          else andThen (get audit ''title'') (\<lambda>t.
            if \<not> truthy t then Inr False
            else andThen (get audit ''description'') (\<lambda>d. Inr (truthy d))))))"

text \<open>
  The object a callback pushes. \<^verbatim>\<open>processDescription\<close> runs first; the properties are
  evaluated in the order of the literal.
\<close>

definition make_recommendation :: "runtime \<Rightarrow> string \<Rightarrow> jsval \<Rightarrow> error + recommendation" where
  "make_recommendation rt auditId audit =
     andThen (get audit ''description'') (\<lambda>d.
     andThen (processDescription (getFriendlyDescription auditId d)) (\<lambda>processedDesc.
     andThen (get audit ''title'') (\<lambda>t.
     andThen (if typeof processedDesc = ''string'' then Inr processedDesc
              else get processedDesc ''text'') (\<lambda>text.
     andThen (if typeof processedDesc = ''object'' then get processedDesc ''learnMoreUrl''
              else Inr JNull) (\<lambda>url.
     andThen (get audit ''score'') (\<lambda>sc.
     andThen (getImpactLevel rt sc) (\<lambda>level.
     andThen (ToNumber rt sc) (\<lambda>n.
     andThen (get audit ''displayValue'') (\<lambda>dv.
       Inr \<lparr>title = t, description = text, learnMoreUrl = url, impact = level,
            score = Math_round (NumberMultiply rt n (Fin 100)),
            displayValue = (if truthy dv then dv else JStr [])\<rparr>)))))))))"

text \<open>
  The callback of each of the four \<^verbatim>\<open>forEach\<close> loops (they differ in the list they
  push to only): \<open>acc\<close> is that list before the call, the result is the list after it.
\<close>

definition visit :: "runtime \<Rightarrow> jsval \<Rightarrow> string \<Rightarrow> recommendation list \<Rightarrow> error + recommendation list" where
  "visit rt audits auditId acc =
     andThen (get audits auditId) (\<lambda>audit.
     andThen (qualifies rt audit) (\<lambda>q.
       if q then andThen (make_recommendation rt auditId audit) (\<lambda>r. Inr (acc @ [r]))
       else Inr acc))"

fun forEach :: "('a \<Rightarrow> 's \<Rightarrow> error + 's) \<Rightarrow> 'a list \<Rightarrow> 's \<Rightarrow> error + 's" where
  "forEach f [] s = Inr s"
| "forEach f (x # xs) s = (case f x s of Inl e \<Rightarrow> Inl e | Inr s' \<Rightarrow> forEach f xs s')"

definition extractApiRecommendations :: "runtime \<Rightarrow> jsval \<Rightarrow> error + recommendations" where
  "extractApiRecommendations rt audits =
     andThen (forEach (visit rt audits) performanceAudits []) (\<lambda>p.
     andThen (forEach (visit rt audits) accessibilityAudits []) (\<lambda>a.
     andThen (forEach (visit rt audits) bestPracticesAudits []) (\<lambda>b.
     andThen (forEach (visit rt audits) seoAudits []) (\<lambda>s.
       Inr \<lparr>performance = p, accessibility = a, bestPractices = b, seo = s\<rparr>))))"

text \<open>The four categories, the list each loop walks and the list it fills.\<close>

datatype category = Performance | Accessibility | BestPractices | Seo

fun allowlist :: "category \<Rightarrow> string list" where
  "allowlist Performance = performanceAudits"
| "allowlist Accessibility = accessibilityAudits"
| "allowlist BestPractices = bestPracticesAudits"
| "allowlist Seo = seoAudits"

fun of_category :: "category \<Rightarrow> recommendations \<Rightarrow> recommendation list" where
  "of_category Performance r = performance r"
| "of_category Accessibility r = accessibility r"
| "of_category BestPractices r = bestPractices r"
| "of_category Seo r = seo r"

section \<open>The proxy function (functions/api/lighthouse.js)\<close>

text \<open>
  A response is its status, its headers as written and its body: \<open>None\<close> for no body,
  \<open>Some v\<close> for the text \<^verbatim>\<open>JSON.stringify(v)\<close>. The handler reads the method of the
  request, the parsed body (\<^verbatim>\<open>await request.json()\<close>, which rejects on a body that is
  not JSON) and the configured key. What the platform computes is a parameter: the
  conversions to text in the outbound URL and the reply of the upstream API to
  \<^verbatim>\<open>fetch\<close> (a rejection, or a status and what \<^verbatim>\<open>response.json()\<close> gives).
  The calls of \<^verbatim>\<open>console.error\<close> are left out.
\<close>

record response =
  status :: nat
  headers :: "(string \<times> string) list"
  body :: "jsval option"

record upstream =
  upstream_status :: nat
  upstream_json :: "error + jsval"

record platform =
  encodeURIComponent :: "string \<Rightarrow> error + string"
  ObjectToString :: "jsval \<Rightarrow> error + string"
  Array_join :: "jsval list \<Rightarrow> string \<Rightarrow> error + string"
  fetch :: "string \<Rightarrow> error + upstream"

record request_context =
  request_method :: string
  request_json :: "error + jsval"
  env_GOOGLE_PAGESPEED_API_KEY :: jsval

text \<open>
  \<^verbatim>\<open>new Response(body, { status, headers })\<close>: the status is 200 when none is given; the
  constructor throws a RangeError on a status outside 200 to 599, and a TypeError on a
  body together with a status that allows none (204, 205, 304).
\<close>

definition new_Response :: "jsval option \<Rightarrow> nat option \<Rightarrow> (string \<times> string) list \<Rightarrow> error + response" where
  "new_Response b st hs =
     (let s = (case st of None \<Rightarrow> 200 | Some s \<Rightarrow> s) in
      if s < 200 \<or> 599 < s then Inl RangeError
      else if b \<noteq> None \<and> s \<in> set [204, 205, 304] then Inl TypeError
      else Inr \<lparr>status = s, headers = hs, body = b\<rparr>)"

definition corsHeaders :: "(string \<times> string) list" where
  "corsHeaders =
     [(''Access-Control-Allow-Origin'', ''*''),
      (''Access-Control-Allow-Methods'', ''POST, OPTIONS''),
      (''Access-Control-Allow-Headers'', ''Content-Type'')]"

text \<open>\<^verbatim>\<open>{ ...corsHeaders, 'Content-Type': 'application/json' }\<close>\<close>

definition jsonHeaders :: "(string \<times> string) list" where
  "jsonHeaders = corsHeaders @ [(''Content-Type'', ''application/json'')]"

text \<open>\<^verbatim>\<open>new Response(JSON.stringify({ error: message }), { status, headers })\<close>\<close>

definition error_Response :: "jsval \<Rightarrow> nat \<Rightarrow> error + response" where
  "error_Response message st = new_Response (Some (JObj [(''error'', message)])) (Some st) jsonHeaders"

text \<open>\<^verbatim>\<open>response.ok\<close>\<close>

definition ok :: "nat \<Rightarrow> bool" where
  "ok st = (200 \<le> st \<and> st \<le> 299)"

text \<open>ToString in a template literal; a destructuring default applies to \<^verbatim>\<open>undefined\<close> only.\<close>

fun ToString :: "platform \<Rightarrow> jsval \<Rightarrow> error + string" where
  "ToString pf (JStr s) = Inr s"
| "ToString pf v = ObjectToString pf v"

definition or_default :: "jsval \<Rightarrow> jsval \<Rightarrow> jsval" where
  "or_default v d = (if v = JUndefined then d else v)"

text \<open>\<^verbatim>\<open>categories.join('&category=')\<close>: only an array has the method.\<close>

fun join :: "platform \<Rightarrow> jsval \<Rightarrow> string \<Rightarrow> error + string" where
  "join pf (JArr xs) sep = Array_join pf xs sep"
| "join pf v sep = Inl TypeError"

text \<open>
  The \<^verbatim>\<open>try\<close> block up to the call of \<^verbatim>\<open>fetch\<close>: an exception, a response returned
  early (\<open>Inr (Inl r)\<close>), or the URL to fetch (\<open>Inr (Inr u)\<close>).
\<close>

definition before_fetch :: "platform \<Rightarrow> request_context \<Rightarrow> error + (response + string)" where
  "before_fetch pf ctx =
     (let apiKey = env_GOOGLE_PAGESPEED_API_KEY ctx in
      if \<not> truthy apiKey then
        andThen (error_Response (JStr ''API key not configured'') 500) (\<lambda>r. Inr (Inl r))
      else
        andThen (request_json ctx) (\<lambda>requestData.
        andThen (get requestData ''url'') (\<lambda>url.
        andThen (get requestData ''strategy'') (\<lambda>strategy0.
        andThen (get requestData ''categories'') (\<lambda>categories0.
          let strategy = or_default strategy0 (JStr ''desktop'');
              categories = or_default categories0
                (JArr [JStr ''performance'', JStr ''accessibility'', JStr ''best-practices'',
                       JStr ''seo''])
          in
          if \<not> truthy url then
            andThen (error_Response (JStr ''URL is required'') 400) (\<lambda>r. Inr (Inl r))
          else
            andThen (ToString pf url) (\<lambda>u0.
            andThen (encodeURIComponent pf u0) (\<lambda>u.
            andThen (ToString pf apiKey) (\<lambda>k.
            andThen (ToString pf strategy) (\<lambda>st.
            andThen (join pf categories ''&category='') (\<lambda>cs.
              Inr (Inr (''https://www.googleapis.com/pagespeedonline/v5/runPagespeed?url='' @ u
                        @ ''&key='' @ k @ ''&strategy='' @ st @ ''&category='' @ cs))))))))))))"

text \<open>\<^verbatim>\<open>errorData.error?.message\<close>\<close>

definition error_message :: "jsval \<Rightarrow> error + jsval" where
  "error_message errorData =
     andThen (get errorData ''error'') (\<lambda>e.
       if e = JNull \<or> e = JUndefined then Inr JUndefined else get e ''message'')"

text \<open>The rest of the \<^verbatim>\<open>try\<close> block, on what \<^verbatim>\<open>fetch\<close> gave.\<close>

definition after_fetch :: "error + upstream \<Rightarrow> error + response" where
  "after_fetch reply =
     andThen reply (\<lambda>response.
       if \<not> ok (upstream_status response) then
         (let errorData = (case upstream_json response of Inl e \<Rightarrow> JObj [] | Inr v \<Rightarrow> v) in
          andThen
            (if upstream_status response = 403 then
               Inr (JStr ''API key is invalid or quota exceeded'')
             else if upstream_status response = 429 then
               Inr (JStr ''API rate limit exceeded. Please try again later'')
             else andThen (error_message errorData) (\<lambda>m.
               if truthy m then Inr m else Inr (JStr ''API error occurred'')))
            (\<lambda>errorMessage. error_Response errorMessage (upstream_status response)))
       else
         andThen (upstream_json response) (\<lambda>data. new_Response (Some data) None jsonHeaders))"

text \<open>
  The handler: its result (a response, or an exception that leaves it) and the URLs it has
  fetched, in order. The preflight test stands before the \<^verbatim>\<open>try\<close>; whatever the block
  throws is answered by the \<^verbatim>\<open>catch\<close>.
\<close>

definition onRequestPost :: "platform \<Rightarrow> request_context \<Rightarrow> (error + response) \<times> string list" where
  "onRequestPost pf ctx =
     (if request_method ctx = ''OPTIONS'' then (new_Response None None corsHeaders, [])
      else
        (let (result, fetched) =
               (case before_fetch pf ctx of
                  Inl e \<Rightarrow> (Inl e, [])
                | Inr (Inl r) \<Rightarrow> (Inr r, [])
                | Inr (Inr googleApiUrl) \<Rightarrow> (after_fetch (fetch pf googleApiUrl), [googleApiUrl]))
         in case result of
              Inl e \<Rightarrow> (error_Response (JStr ''Internal server error'') 500, fetched)
            | Inr r \<Rightarrow> (Inr r, fetched)))"

section \<open>Shapes and examples\<close>

subsection \<open>The cases of an audit entry\<close>

text \<open>
  \<open>field e k\<close> is the property \<open>k\<close> of a truthy entry \<open>e\<close> (reading it cannot throw).
\<close>

definition field :: "jsval \<Rightarrow> string \<Rightarrow> jsval" where
  "field v k = (case get v k of Inl e \<Rightarrow> JUndefined | Inr x \<Rightarrow> x)"

text \<open>
  The cases in which the specification, as it is worded, has no recommendation for the
  identifier \<open>k\<close>: it is absent from the audit map, or its entry's score is null, or the
  score is at least 1, or the title or the description is missing (absent, null, empty or
  otherwise falsy; an entry that is no object has neither).
\<close>

fun at_least_one :: "jsval \<Rightarrow> bool" where
  "at_least_one (JNum (Fin r)) = (1 \<le> r)"
| "at_least_one (JNum PosInf) = True"
| "at_least_one v = False"

definition missing :: "jsval \<Rightarrow> bool" where
  "missing v = (\<not> truthy v)"

definition skipped_as_stated :: "(string \<times> jsval) list \<Rightarrow> string \<Rightarrow> bool" where
  "skipped_as_stated ps k =
     (map_of ps k = None \<or>
      (let e = obj_get ps k in
       field e ''score'' = JNull \<or>
       at_least_one (field e ''score'') \<or>
       missing (field e ''title'') \<or>
       missing (field e ''description'')))"

text \<open>
  The cases in which the code has none, whatever the entry is: the identifier is absent
  or its entry is falsy, or the score is null, or the score does not compare below 1 (a
  number that is at least 1, NaN, an absent score, a text that is no number), or the
  title or the description is falsy (absent, null, empty).
\<close>

definition skips :: "runtime \<Rightarrow> (string \<times> jsval) list \<Rightarrow> string \<Rightarrow> bool" where
  "skips rt ps k =
     (map_of ps k = None \<or>
      (let e = obj_get ps k in
       \<not> truthy e \<or>
       field e ''score'' = JNull \<or>
       js_less rt (field e ''score'') 1 \<noteq> Inr True \<or>
       \<not> truthy (field e ''title'') \<or>
       \<not> truthy (field e ''description'')))"

text \<open>
  The cases in which the callback throws: the entry is truthy and its score is not null,
  and either the conversion of the score to a number throws, or the entry passes the whole
  test and its description is no string while the table has no friendly text for the
  identifier, so that \<^verbatim>\<open>processDescription\<close> calls \<^verbatim>\<open>match\<close> on it.
\<close>

fun is_primitive :: "jsval \<Rightarrow> bool" where
  "is_primitive (JArr xs) = False"
| "is_primitive (JObj ps) = False"
| "is_primitive (JNative k) = False"
| "is_primitive v = True"

fun is_string :: "jsval \<Rightarrow> bool" where
  "is_string (JStr s) = True"
| "is_string v = False"

definition has_friendly_text :: "string \<Rightarrow> bool" where
  "has_friendly_text k = (k \<in> set (map fst friendlyDescriptions_entries))"

definition faults :: "runtime \<Rightarrow> (string \<times> jsval) list \<Rightarrow> string \<Rightarrow> bool" where
  "faults rt ps k =
     (let e = obj_get ps k in
      truthy e \<and> field e ''score'' \<noteq> JNull \<and>
      (case ToNumber rt (field e ''score'') of
         Inl x \<Rightarrow> True
       | Inr n \<Rightarrow>
           num_less n (Fin 1) \<and> truthy (field e ''title'') \<and>
           truthy (field e ''description'') \<and> \<not> is_string (field e ''description'') \<and>
           \<not> has_friendly_text k))"

text \<open>The record the callback builds for \<open>k\<close>, where it builds one.\<close>

definition record_for :: "runtime \<Rightarrow> (string \<times> jsval) list \<Rightarrow> string \<Rightarrow> recommendation" where
  "record_for rt ps k = projr (make_recommendation rt k (obj_get ps k))"

subsection \<open>Example audits\<close>

text \<open>
  A runtime for the examples. The products \<open>0 \<times> 100\<close> and \<open>1/2 \<times> 100\<close> of
  the examples are exact in doubles, and no example converts a string or an object to a
  number.
\<close>

definition example_runtime :: runtime where
  "example_runtime =
     \<lparr>StringToNumber = (\<lambda>s. NaN), ObjectToNumber = (\<lambda>v. Inr NaN),
      NumberMultiply = (\<lambda>a b. case (a, b) of (Fin x, Fin y) \<Rightarrow> Fin (x * y) | _ \<Rightarrow> NaN)\<rparr>"

text \<open>
  Example audits: two failing accessibility audits with friendly text, one without, a
  passing audit and an informational one.
\<close>

definition example_audits :: "(string \<times> jsval) list" where
  "example_audits =
     [(''color-contrast'',
         JObj [(''score'', JNum (Fin (1 / 2))), (''title'', JStr ''Contrast''),
               (''description'', JStr ''Low contrast.'')]),
      (''label'',
         JObj [(''score'', JNum (Fin 0)), (''title'', JStr ''Labels''),
               (''description'', JStr ''No labels.''), (''displayValue'', JStr ''3 fields'')]),
      (''focus-traps'',
         JObj [(''score'', JNum (Fin 0)), (''title'', JStr ''Focus''),
               (''description'', JStr ''Focus is trapped. See http://localhost/docs.'')]),
      (''image-alt'',
         JObj [(''score'', JNum (Fin 1)), (''title'', JStr ''Alt''),
               (''description'', JStr ''Images have alt text.'')]),
      (''document-title'',
         JObj [(''score'', JNull), (''title'', JStr ''Title''),
               (''description'', JStr ''The page has a title.'')])]"

text \<open>An entry of the wrong shape: the description is a number.\<close>

definition malformed_audits :: "(string \<times> jsval) list" where
  "malformed_audits =
     [(''focus-traps'',
         JObj [(''score'', JNum (Fin 0)), (''title'', JStr ''Focus''),
               (''description'', JNum (Fin 5))])]"

text \<open>An entry without a score.\<close>

definition scoreless_audits :: "(string \<times> jsval) list" where
  "scoreless_audits =
     [(''label'', JObj [(''title'', JStr ''Labels''), (''description'', JStr ''No labels.'')])]"

text \<open>
  A runtime that converts a plain object as the language does: through the inherited
  \<^verbatim>\<open>valueOf\<close> and \<^verbatim>\<open>toString\<close> it becomes \<^verbatim>\<open>[object Object]\<close> and then NaN,
  and an object whose own property \<^verbatim>\<open>toString\<close> hides the method cannot be converted
  (a TypeError). The entry below has such a score.
\<close>

definition object_runtime :: runtime where
  "object_runtime =
     \<lparr>StringToNumber = (\<lambda>s. NaN),
      ObjectToNumber = (\<lambda>v. case v of
          JObj fs \<Rightarrow> if map_of fs ''toString'' = None then Inr NaN else Inl TypeError
        | _ \<Rightarrow> Inr NaN),
      NumberMultiply = (\<lambda>a b. case (a, b) of (Fin x, Fin y) \<Rightarrow> Fin (x * y) | _ \<Rightarrow> NaN)\<rparr>"

definition unconvertible_audits :: "(string \<times> jsval) list" where
  "unconvertible_audits =
     [(''label'',
         JObj [(''score'', JObj [(''toString'', JNum (Fin 0))]), (''title'', JStr ''Labels''),
               (''description'', JStr ''No labels.'')])]"

subsection \<open>Responses, requests and replies for the proxy function\<close>

text \<open>
  A status that \<^verbatim>\<open>new Response\<close> takes together with a body, the response the handler
  builds around a message, and a platform, requests and upstream replies for the
  examples. The example platform leaves the letters and the dot of the example's URL as
  \<^verbatim>\<open>encodeURIComponent\<close> does, and joins arrays of strings.
\<close>

definition relayable :: "nat \<Rightarrow> bool" where
  "relayable st = (200 \<le> st \<and> st \<le> 599 \<and> st \<notin> set [204, 205, 304])"

definition error_reply :: "nat \<Rightarrow> jsval \<Rightarrow> response" where
  "error_reply st message =
     \<lparr>status = st, headers = jsonHeaders, body = Some (JObj [(''error'', message)])\<rparr>"

fun join_strings :: "string list \<Rightarrow> string \<Rightarrow> string" where
  "join_strings [] sep = []"
| "join_strings [x] sep = x"
| "join_strings (x # y # ys) sep = x @ sep @ join_strings (y # ys) sep"

definition example_platform :: "(error + upstream) \<Rightarrow> platform" where
  "example_platform reply =
     \<lparr>encodeURIComponent = (\<lambda>s. Inr s), ObjectToString = (\<lambda>v. Inl TypeError),
      Array_join = (\<lambda>xs sep. Inr (join_strings (map (\<lambda>v. case v of JStr s \<Rightarrow> s | _ \<Rightarrow> []) xs) sep)),
      fetch = (\<lambda>u. reply)\<rparr>"

definition example_request :: "string \<Rightarrow> jsval \<Rightarrow> error + jsval \<Rightarrow> request_context" where
  "example_request method key parsed =
     \<lparr>request_method = method, request_json = parsed, env_GOOGLE_PAGESPEED_API_KEY = key\<rparr>"

definition example_body :: jsval where
  "example_body = JObj [(''url'', JStr ''example.com'')]"

definition example_url :: string where
  "example_url = ''https://www.googleapis.com/pagespeedonline/v5/runPagespeed?url=example.com&key=k&strategy=desktop&category=performance&category=accessibility&category=best-practices&category=seo''"

definition example_upstream :: "nat \<Rightarrow> upstream" where
  "example_upstream st =
     \<lparr>upstream_status = st,
      upstream_json = Inr (JObj [(''error'', JObj [(''message'', JStr ''Not found'')])])\<rparr>"

definition example_report :: jsval where
  "example_report =
     JObj [(''lighthouseResult'',
            JObj [(''categories'', JObj [(''performance'', JObj [(''score'', JNum (Fin (42 / 100)))])]),
                  (''audits'', JObj [])])]"

section \<open>Properties of the extractor\<close>

subsection \<open>Auxiliary facts\<close>

lemma foldl_upd_map_of:
  "foldl (\<lambda>m (k, v). m(k \<mapsto> v)) m0 ps = m0 ++ map_of (rev ps)"
  by (induction ps arbitrary: m0) (auto simp: map_add_upd_left)

lemma object_literal_map_of: "object_literal ps = map_of (rev ps)"
  by (simp add: object_literal_def foldl_upd_map_of)

lemma friendly_keys:
  "map fst friendlyDescriptions_entries =
    [''largest-contentful-paint'', ''first-contentful-paint'', ''speed-index'',
     ''cumulative-layout-shift'', ''total-blocking-time'', ''render-blocking-resources'',
     ''unused-css-rules'', ''unused-javascript'', ''modern-image-formats'',
     ''efficiently-encode-images'', ''offscreen-images'', ''unminified-css'',
     ''unminified-javascript'', ''server-response-time'', ''uses-text-compression'',
     ''uses-rel-preconnect'', ''uses-rel-preload'', ''font-display'', ''color-contrast'',
     ''image-alt'', ''label'', ''link-name'', ''button-name'', ''document-title'',
     ''html-has-lang'', ''meta-viewport'', ''heading-order'', ''skip-link'',
     ''is-on-https'', ''uses-http2'', ''no-vulnerable-libraries'',
     ''external-anchors-use-rel-noopener'', ''geolocation-on-start'',
     ''notification-on-start'', ''no-document-write'', ''js-libraries'',
     ''document-title'', ''meta-description'', ''http-status-code'', ''link-text'',
     ''is-crawlable'', ''robots-txt'', ''hreflang'', ''canonical'', ''font-size'',
     ''tap-targets'']"
  by (simp add: friendlyDescriptions_entries_def)

lemma friendly_texts_nonempty: "\<forall>e \<in> set friendlyDescriptions_entries. snd e \<noteq> []"
proof -
  have "list_all (\<lambda>e. snd e \<noteq> []) friendlyDescriptions_entries" by code_simp
  then show ?thesis by (simp only: list_all_iff)
qed

lemma allowlist_no_prototype_key:
  "k \<in> set (allowlist c) \<Longrightarrow> k \<notin> set Object_prototype_keys"
  by (cases c)
     (auto simp: performanceAudits_def accessibilityAudits_def bestPracticesAudits_def
        seoAudits_def Object_prototype_keys_def)

lemma map_of_rev_last:
  "k \<in> fst ` set ps \<Longrightarrow> map_of (rev ps) k = Some (snd (last (filter (\<lambda>e. fst e = k) ps)))"
proof (induction ps rule: rev_induct)
  case Nil
  then show ?case by simp
next
  case (snoc p qs)
  show ?case
  proof (cases "fst p = k")
    case True
    then show ?thesis by (cases p) simp
  next
    case False
    with snoc.prems have "k \<in> fst ` set qs" by auto
    with snoc.IH False show ?thesis by (cases p) auto
  qed
qed

lemma getFriendlyDescription_declared:
  assumes "k \<in> fst ` set friendlyDescriptions_entries"
  shows "getFriendlyDescription k d =
         JStr (snd (last (filter (\<lambda>e. fst e = k) friendlyDescriptions_entries)))"
proof -
  let ?es = "filter (\<lambda>e. fst e = k) friendlyDescriptions_entries"
  from assms have "?es \<noteq> []" by (auto simp: filter_empty_conv)
  then have "last ?es \<in> set ?es" by (rule last_in_set)
  then have "snd (last ?es) \<noteq> []" using friendly_texts_nonempty by auto
  moreover have "friendlyDescriptions k = JStr (snd (last ?es))"
    by (simp add: friendlyDescriptions_def object_literal_map_of map_of_rev_last [OF assms])
  ultimately show ?thesis by (simp add: getFriendlyDescription_def)
qed

lemma getFriendlyDescription_undeclared:
  assumes "k \<notin> fst ` set friendlyDescriptions_entries" "k \<notin> set Object_prototype_keys"
  shows "getFriendlyDescription k d = d"
proof -
  from assms(1) have "map_of (rev friendlyDescriptions_entries) k = None"
    by (simp add: map_of_eq_None_iff)
  with assms(2) show ?thesis
    by (simp add: getFriendlyDescription_def friendlyDescriptions_def object_literal_map_of)
qed

lemma processDescription_string:
  "(\<exists>t. processDescription (JStr s) = Inr (JStr t)) \<or>
   (\<exists>t u. processDescription (JStr s) = Inr (JObj [(''text'', JStr t), (''learnMoreUrl'', JStr u)]))"
  by (simp add: processDescription_def Let_def)

lemma ToNumber_primitive: "is_primitive v \<Longrightarrow> \<exists>n. ToNumber rt v = Inr n"
  by (cases v) auto

lemma getImpactLevel_total: "ToNumber rt v = Inr n \<Longrightarrow> \<exists>l. getImpactLevel rt v = Inr l"
  by (auto simp: getImpactLevel_def js_less_def split: bool.splits)

lemma obj_get_Cons: "obj_get ((k', v) # ps) k = (if k = k' then v else obj_get ps k)"
  by (simp add: obj_get_def)

lemma visit_append:
  "visit rt audits k acc =
   (case visit rt audits k [] of Inl e \<Rightarrow> Inl e | Inr l \<Rightarrow> Inr (acc @ l))"
  by (auto simp: visit_def andThen_def split: sum.splits)

lemma visit_nil_or_single:
  "visit rt audits k [] = Inr l \<Longrightarrow> l = [] \<or> (\<exists>r. l = [r])"
  by (auto simp: visit_def andThen_def split: sum.splits if_splits)

lemma forEach_visit_positions:
  "forEach (visit rt audits) ks acc = Inr out \<Longrightarrow>
   \<exists>ps rs. out = acc @ rs \<and> sorted_wrt (<) ps \<and> length ps = length rs \<and>
     (\<forall>i<length ps. ps ! i < length ks \<and> visit rt audits (ks ! (ps ! i)) [] = Inr [rs ! i])"
proof (induction ks arbitrary: acc out)
  case Nil
  then show ?case by simp
next
  case (Cons k ks)
  from Cons.prems obtain acc' where
    v: "visit rt audits k acc = Inr acc'" and f: "forEach (visit rt audits) ks acc' = Inr out"
    by (auto split: sum.splits)
  from v obtain l where l: "visit rt audits k [] = Inr l" and acc': "acc' = acc @ l"
    by (subst (asm) visit_append) (auto split: sum.splits)
  from Cons.IH [OF f] obtain ps rs where
    out: "out = acc' @ rs" and srt: "sorted_wrt (<) ps" and len: "length ps = length rs"
    and pos: "\<forall>i<length ps. ps ! i < length ks \<and> visit rt audits (ks ! (ps ! i)) [] = Inr [rs ! i]"
    by blast
  from visit_nil_or_single [OF l] show ?case
  proof (elim disjE exE)
    assume "l = []"
    with out acc' srt len pos
    have "out = acc @ rs \<and> sorted_wrt (<) (map Suc ps) \<and> length (map Suc ps) = length rs \<and>
      (\<forall>i<length (map Suc ps). map Suc ps ! i < length (k # ks) \<and>
         visit rt audits ((k # ks) ! (map Suc ps ! i)) [] = Inr [rs ! i])"
      by (simp add: sorted_wrt_map)
    then show ?thesis by blast
  next
    fix r assume r: "l = [r]"
    have "\<forall>i<length (0 # map Suc ps). (0 # map Suc ps) ! i < length (k # ks) \<and>
         visit rt audits ((k # ks) ! ((0 # map Suc ps) ! i)) [] = Inr [(r # rs) ! i]"
    proof (intro allI impI)
      fix i assume "i < length (0 # map Suc ps)"
      then show "(0 # map Suc ps) ! i < length (k # ks) \<and>
         visit rt audits ((k # ks) ! ((0 # map Suc ps) ! i)) [] = Inr [(r # rs) ! i]"
        using pos l r by (cases i) simp_all
    qed
    moreover have "sorted_wrt (<) (0 # map Suc ps)"
      using srt by (simp add: sorted_wrt_map)
    moreover have "out = acc @ (r # rs)" "length (0 # map Suc ps) = length (r # rs)"
      using out acc' r len by simp_all
    ultimately show ?thesis by blast
  qed
qed

lemma extract_category:
  "extractApiRecommendations rt audits = Inr r \<Longrightarrow>
   forEach (visit rt audits) (allowlist c) [] = Inr (of_category c r)"
  by (cases c) (auto simp: extractApiRecommendations_def andThen_def split: sum.splits)

lemma allowlist_distinct: "distinct (allowlist c)"
  by (cases c)
     (simp_all add: performanceAudits_def accessibilityAudits_def bestPracticesAudits_def
        seoAudits_def)

lemma get_field: "truthy e \<Longrightarrow> get e k = Inr (field e k)"
  by (cases e) (auto simp: field_def)

lemma qualifies_falsy: "\<not> truthy e \<Longrightarrow> qualifies rt e = Inr False"
  by (simp add: qualifies_def)

lemma qualifies_truthy:
  assumes "truthy e"
  shows "qualifies rt e =
     (if field e ''score'' = JNull then Inr False
      else case ToNumber rt (field e ''score'') of
             Inl x \<Rightarrow> Inl x
           | Inr n \<Rightarrow> Inr (num_less n (Fin 1) \<and> truthy (field e ''title'') \<and>
                           truthy (field e ''description'')))"
  using assms
  by (simp add: qualifies_def andThen_def js_less_def get_field split: sum.splits)

lemma make_recommendation_string:
  assumes "truthy e" "ToNumber rt (field e ''score'') = Inr n"
    and "getFriendlyDescription k (field e ''description'') = JStr t"
  shows "\<exists>r. make_recommendation rt k e = Inr r"
proof -
  from getImpactLevel_total [OF assms(2)]
  obtain l where l: "getImpactLevel rt (field e ''score'') = Inr l" by blast
  from processDescription_string [of t] show ?thesis
  proof (elim disjE exE)
    fix u assume "processDescription (JStr t) = Inr (JStr u)"
    then show ?thesis
      by (simp add: make_recommendation_def andThen_def get_field [OF assms(1)] assms(2,3) l)
  next
    fix u v
    assume "processDescription (JStr t) = Inr (JObj [(''text'', JStr u), (''learnMoreUrl'', JStr v)])"
    then show ?thesis
      by (simp add: make_recommendation_def andThen_def get_field [OF assms(1)] assms(2,3) l
          obj_get_Cons)
  qed
qed

lemma processDescription_not_string:
  "truthy d \<Longrightarrow> \<not> is_string d \<Longrightarrow> processDescription d = Inl TypeError"
  by (cases d) (auto simp: processDescription_def)

lemma make_recommendation_not_string:
  assumes "truthy e" "truthy (getFriendlyDescription k (field e ''description''))"
    and "\<not> is_string (getFriendlyDescription k (field e ''description''))"
  shows "make_recommendation rt k e = Inl TypeError"
  using assms
  by (simp add: make_recommendation_def andThen_def get_field processDescription_not_string)

lemma has_friendly_text_iff:
  "has_friendly_text k = (k \<in> fst ` set friendlyDescriptions_entries)"
  by (simp add: has_friendly_text_def)

lemma friendly_description_cases:
  assumes "k \<notin> set Object_prototype_keys"
  shows "(has_friendly_text k \<longrightarrow> (\<exists>t. getFriendlyDescription k d = JStr t)) \<and>
         (\<not> has_friendly_text k \<longrightarrow> getFriendlyDescription k d = d)"
proof (cases "has_friendly_text k")
  case True
  then have "k \<in> fst ` set friendlyDescriptions_entries" by (simp add: has_friendly_text_iff)
  from getFriendlyDescription_declared [OF this] True show ?thesis by blast
next
  case False
  then have "k \<notin> fst ` set friendlyDescriptions_entries" by (simp add: has_friendly_text_iff)
  from getFriendlyDescription_undeclared [OF this assms] False show ?thesis by simp
qed

lemma visit_cases:
  assumes "k \<notin> set Object_prototype_keys"
  shows "(faults rt ps k \<longrightarrow> (\<exists>x. \<forall>acc. visit rt (JObj ps) k acc = Inl x)) \<and>
         (\<not> faults rt ps k \<longrightarrow>
            (\<forall>acc. visit rt (JObj ps) k acc =
               Inr (if skips rt ps k then acc else acc @ [record_for rt ps k])))"
proof (cases "truthy (obj_get ps k)")
  case False
  then have "qualifies rt (obj_get ps k) = Inr False" by (rule qualifies_falsy)
  with False show ?thesis
    by (simp add: visit_def andThen_def faults_def skips_def)
next
  case True
  let ?e = "obj_get ps k"
  from True assms have present: "map_of ps k \<noteq> None"
    by (auto simp: obj_get_def split: option.splits)
  note q = qualifies_truthy [OF True, of rt]
  show ?thesis
  proof (cases "field ?e ''score'' = JNull")
    case True
    with q \<open>truthy ?e\<close> show ?thesis
      by (simp add: visit_def andThen_def faults_def skips_def)
  next
    case notnull: False
    show ?thesis
    proof (cases "ToNumber rt (field ?e ''score'')")
      case (Inl x)
      with q notnull have "qualifies rt ?e = Inl x" by simp
      moreover from Inl notnull \<open>truthy ?e\<close> have "faults rt ps k" by (simp add: faults_def)
      ultimately show ?thesis by (simp add: visit_def andThen_def)
    next
      case (Inr n)
      let ?q = "num_less n (Fin 1) \<and> truthy (field ?e ''title'') \<and> truthy (field ?e ''description'')"
      from q notnull Inr have qe: "qualifies rt ?e = Inr ?q" by simp
      from Inr notnull \<open>truthy ?e\<close> present have sk: "skips rt ps k = (\<not> ?q)"
        by (auto simp: skips_def js_less_def)
      show ?thesis
      proof (cases ?q)
        case False
        with qe sk Inr notnull show ?thesis
          by (auto simp: visit_def andThen_def faults_def)
      next
        case qt: True
        note fd = friendly_description_cases [OF assms, of "field ?e ''description''"]
        show ?thesis
        proof (cases "has_friendly_text k \<or> is_string (field ?e ''description'')")
          case True
          then obtain t where "getFriendlyDescription k (field ?e ''description'') = JStr t"
            using fd by (cases "field ?e ''description''") auto
          from make_recommendation_string [OF \<open>truthy ?e\<close> Inr this]
          obtain r where r: "make_recommendation rt k ?e = Inr r" by blast
          from True Inr notnull have "\<not> faults rt ps k" by (auto simp: faults_def)
          with r qe qt sk show ?thesis
            by (simp add: visit_def andThen_def record_for_def)
        next
          case False
          with fd have g: "getFriendlyDescription k (field ?e ''description'') = field ?e ''description''"
            by simp
          from False qt make_recommendation_not_string [OF \<open>truthy ?e\<close>, of k rt] g
          have "make_recommendation rt k ?e = Inl TypeError" by simp
          moreover from False Inr notnull qt \<open>truthy ?e\<close> have "faults rt ps k"
            by (simp add: faults_def)
          ultimately show ?thesis using qe qt by (simp add: visit_def andThen_def)
        qed
      qed
    qed
  qed
qed

lemma forEach_visit_all:
  assumes "\<forall>k \<in> set ks. k \<notin> set Object_prototype_keys"
  shows "((\<exists>k \<in> set ks. faults rt ps k) \<longrightarrow> (\<exists>x. forEach (visit rt (JObj ps)) ks acc = Inl x)) \<and>
         ((\<forall>k \<in> set ks. \<not> faults rt ps k) \<longrightarrow>
            forEach (visit rt (JObj ps)) ks acc =
              Inr (acc @ map (record_for rt ps) (filter (\<lambda>k. \<not> skips rt ps k) ks)))"
  using assms
proof (induction ks arbitrary: acc)
  case Nil
  show ?case by simp
next
  case (Cons k ks)
  then have k: "k \<notin> set Object_prototype_keys" and ks: "\<forall>k \<in> set ks. k \<notin> set Object_prototype_keys"
    by simp_all
  note v = visit_cases [OF k, of rt ps]
  note ih = Cons.IH [OF ks]
  show ?case
  proof (cases "faults rt ps k")
    case True
    with v obtain x where "\<forall>acc. visit rt (JObj ps) k acc = Inl x" by blast
    with True show ?thesis by simp
  next
    case False
    with v have s: "visit rt (JObj ps) k acc =
        Inr (if skips rt ps k then acc else acc @ [record_for rt ps k])" by blast
    from False s ih [of "if skips rt ps k then acc else acc @ [record_for rt ps k]"]
    show ?thesis by simp
  qed
qed

lemma allowlist_no_prototype_keys: "\<forall>k \<in> set (allowlist c). k \<notin> set Object_prototype_keys"
  using allowlist_no_prototype_key by blast

lemma category_lists:
  assumes "extractApiRecommendations rt (JObj ps) = Inr r"
  shows "(\<forall>k \<in> set (allowlist c). \<not> faults rt ps k) \<and>
         of_category c r = map (record_for rt ps) (filter (\<lambda>k. \<not> skips rt ps k) (allowlist c))"
proof -
  note f = forEach_visit_all [OF allowlist_no_prototype_keys, of c rt ps "[]"]
  note e = extract_category [OF assms, of c]
  from f e have nf: "\<forall>k \<in> set (allowlist c). \<not> faults rt ps k" by auto
  with f e show ?thesis by simp
qed

lemma extract_returns_iff:
  "(\<exists>r. extractApiRecommendations rt (JObj ps) = Inr r) =
   (\<forall>c. \<forall>k \<in> set (allowlist c). \<not> faults rt ps k)"
proof
  assume "\<exists>r. extractApiRecommendations rt (JObj ps) = Inr r"
  then obtain r where "extractApiRecommendations rt (JObj ps) = Inr r" ..
  from category_lists [OF this] show "\<forall>c. \<forall>k \<in> set (allowlist c). \<not> faults rt ps k" by blast
next
  assume a: "\<forall>c. \<forall>k \<in> set (allowlist c). \<not> faults rt ps k"
  have "\<exists>l. forEach (visit rt (JObj ps)) (allowlist c) [] = Inr l" for c
    using forEach_visit_all [OF allowlist_no_prototype_keys, of c rt ps "[]"] a by simp
  from this [of Performance] this [of Accessibility] this [of BestPractices] this [of Seo]
  obtain p a b s where
    "forEach (visit rt (JObj ps)) performanceAudits [] = Inr p"
    "forEach (visit rt (JObj ps)) accessibilityAudits [] = Inr a"
    "forEach (visit rt (JObj ps)) bestPracticesAudits [] = Inr b"
    "forEach (visit rt (JObj ps)) seoAudits [] = Inr s"
    unfolding allowlist.simps by (elim exE)
  then show "\<exists>r. extractApiRecommendations rt (JObj ps) = Inr r"
    by (simp add: extractApiRecommendations_def andThen_def)
qed


lemma without_friendly_text:
  assumes "k \<in> set (allowlist c)" "\<not> has_friendly_text k"
  shows "k \<in> set [''focus-traps'', ''focusable-controls'', ''interactive-element-affordance'']"
proof -
  have "filter (\<lambda>k. \<not> has_friendly_text k)
          (performanceAudits @ accessibilityAudits @ bestPracticesAudits @ seoAudits) =
        [''focus-traps'', ''focusable-controls'', ''interactive-element-affordance'']"
    by code_simp
  moreover from assms(1) have
    "k \<in> set (performanceAudits @ accessibilityAudits @ bestPracticesAudits @ seoAudits)"
    by (cases c) simp_all
  with assms(2) have "k \<in> set (filter (\<lambda>k. \<not> has_friendly_text k)
          (performanceAudits @ accessibilityAudits @ bestPracticesAudits @ seoAudits))"
    by simp
  ultimately show ?thesis by simp
qed

lemma field_falsy: "\<not> truthy e \<Longrightarrow> field e k = JUndefined"
  by (cases e) (auto simp: field_def)

lemma skips_as_stated:
  assumes "field (obj_get ps k) ''score'' = JNull \<or>
           (\<exists>y. field (obj_get ps k) ''score'' = JNum (Fin y))"
  shows "skips rt ps k = skipped_as_stated ps k"
proof (cases "truthy (obj_get ps k)")
  case False
  then have "field (obj_get ps k) ''title'' = JUndefined" by (rule field_falsy)
  with False show ?thesis by (simp add: skips_def skipped_as_stated_def missing_def Let_def)
next
  case True
  from assms show ?thesis
  proof
    assume "field (obj_get ps k) ''score'' = JNull"
    then show ?thesis by (simp add: skips_def skipped_as_stated_def missing_def Let_def)
  next
    assume "\<exists>y. field (obj_get ps k) ''score'' = JNum (Fin y)"
    then obtain y where "field (obj_get ps k) ''score'' = JNum (Fin y)" ..
    with True show ?thesis
      by (auto simp: skips_def skipped_as_stated_def missing_def Let_def js_less_def)
  qed
qed

lemma not_below_one_number: "(js_less rt (JNum (Fin x)) 1 \<noteq> Inr True) = (1 \<le> x)"
  by (auto simp: js_less_def)

lemma not_below_one_absent: "js_less rt JUndefined 1 \<noteq> Inr True"
  by (simp add: js_less_def)

subsection \<open>Evaluation of the examples\<close>

lemma example_extract:
  "extractApiRecommendations example_runtime (JObj example_audits) =
   Inr \<lparr>performance = [],
        accessibility =
          [\<lparr>title = JStr ''Contrast'',
             description = JStr ''Some text on your site is hard to read due to insufficient color contrast, making it difficult for users with vision impairments.'',
             learnMoreUrl = JNull, impact = ''Low'', score = Fin 50, displayValue = JStr []\<rparr>,
           \<lparr>title = JStr ''Labels'',
             description = JStr ''Some form fields are missing labels, making it difficult for users with disabilities to understand what information to enter.'',
             learnMoreUrl = JNull, impact = ''High'', score = Fin 0,
             displayValue = JStr ''3 fields''\<rparr>,
           \<lparr>title = JStr ''Focus'', description = JStr ''Focus is trapped. See'',
             learnMoreUrl = JStr ''http://localhost/docs'', impact = ''High'', score = Fin 0,
             displayValue = JStr []\<rparr>],
        bestPractices = [], seo = []\<rparr>"
  by code_simp


subsection \<open>Skipping and appending\<close>

lemma example_skips:
  "filter (\<lambda>k. \<not> skips example_runtime example_audits k) accessibilityAudits =
     [''color-contrast'', ''label'', ''focus-traps'']"
  by code_simp

text \<open>
  C1, as the code has it. Whenever the extractor returns, the list of a category holds
  exactly one recommendation for each identifier of its allowlist that is not skipped, in
  the order of the allowlist, and none for a skipped one: the callback of the loop leaves
  the list as it is for a skipped identifier and appends exactly one record otherwise. An
  identifier is skipped when it is absent from the audit map (or its entry is falsy), or
  the score is null, or the score does not compare below 1, or the title or the
  description is falsy. A number does not compare below 1 when it is at least 1, and an
  absent score does not compare below 1 either; where the score is null or a finite
  number, these are the cases the specification states. The allowlist names no
  identifier twice.
\<close>

theorem extractor_skips_or_appends_one:
  assumes "extractApiRecommendations rt (JObj ps) = Inr r"
  shows "distinct (allowlist c) \<and>
         (\<exists>f. of_category c r = map f (filter (\<lambda>k. \<not> skips rt ps k) (allowlist c)) \<and>
              (\<forall>k \<in> set (allowlist c). \<forall>acc.
                 visit rt (JObj ps) k acc = Inr (if skips rt ps k then acc else acc @ [f k]))) \<and>
         (js_less rt (JNum (Fin x)) 1 \<noteq> Inr True) = (1 \<le> x) \<and>
         js_less rt JUndefined 1 \<noteq> Inr True \<and>
         (\<forall>k. field (obj_get ps k) ''score'' = JNull \<or>
              (\<exists>y. field (obj_get ps k) ''score'' = JNum (Fin y)) \<longrightarrow>
              skips rt ps k = skipped_as_stated ps k)"
proof -
  note l = category_lists [OF assms, of c]
  have s: "\<forall>k. field (obj_get ps k) ''score'' = JNull \<or>
              (\<exists>y. field (obj_get ps k) ''score'' = JNum (Fin y)) \<longrightarrow>
              skips rt ps k = skipped_as_stated ps k"
    by (intro allI impI) (rule skips_as_stated)
  have "\<forall>k \<in> set (allowlist c). \<forall>acc.
          visit rt (JObj ps) k acc = Inr (if skips rt ps k then acc else acc @ [record_for rt ps k])"
  proof (intro ballI)
    fix k assume k: "k \<in> set (allowlist c)"
    with l have "\<not> faults rt ps k" by blast
    with visit_cases [OF allowlist_no_prototype_key [OF k], of rt ps]
    show "\<forall>acc. visit rt (JObj ps) k acc =
            Inr (if skips rt ps k then acc else acc @ [record_for rt ps k])" by blast
  qed
  with l have "\<exists>f. of_category c r = map f (filter (\<lambda>k. \<not> skips rt ps k) (allowlist c)) \<and>
              (\<forall>k \<in> set (allowlist c). \<forall>acc.
                 visit rt (JObj ps) k acc = Inr (if skips rt ps k then acc else acc @ [f k]))"
    by (intro exI [of _ "record_for rt ps"]) simp
  with allowlist_distinct [of c] not_below_one_number [of rt x] not_below_one_absent [of rt] s
  show ?thesis by - (intro conjI, assumption+)
qed

theorem extractor_skips_or_appends_one_witness:
  "\<exists>f. accessibility (projr (extractApiRecommendations example_runtime (JObj example_audits))) =
          map f [''color-contrast'', ''label'', ''focus-traps''] \<and>
        visit example_runtime (JObj example_audits) ''image-alt'' [] = Inr [] \<and>
        visit example_runtime (JObj example_audits) ''label'' [] = Inr [f ''label''] \<and>
        skipped_as_stated example_audits ''image-alt'' \<and>
        \<not> skipped_as_stated example_audits ''label''"
proof -
  let ?r = "projr (extractApiRecommendations example_runtime (JObj example_audits))"
  have e: "extractApiRecommendations example_runtime (JObj example_audits) = Inr ?r"
    by (simp only: example_extract sum.sel)
  from extractor_skips_or_appends_one [OF e, of Accessibility, THEN conjunct2, THEN conjunct1]
  obtain f where
    m: "of_category Accessibility ?r =
        map f (filter (\<lambda>k. \<not> skips example_runtime example_audits k) (allowlist Accessibility))"
    and v: "\<forall>k \<in> set (allowlist Accessibility). \<forall>acc.
        visit example_runtime (JObj example_audits) k acc =
        Inr (if skips example_runtime example_audits k then acc else acc @ [f k])"
    by (erule_tac exE) (erule conjE)
  have a: "''image-alt'' \<in> set (allowlist Accessibility)" "''label'' \<in> set (allowlist Accessibility)"
    by (simp_all add: accessibilityAudits_def)
  have s: "skips example_runtime example_audits ''image-alt''"
    "\<not> skips example_runtime example_audits ''label''"
    by code_simp+
  have n: "field (obj_get example_audits ''image-alt'') ''score'' = JNum (Fin 1)"
    "field (obj_get example_audits ''label'') ''score'' = JNum (Fin 0)"
    by code_simp+
  note g = extractor_skips_or_appends_one [OF e, of Accessibility, THEN conjunct2,
    THEN conjunct2, THEN conjunct2, THEN conjunct2]
  from m have "accessibility ?r = map f [''color-contrast'', ''label'', ''focus-traps'']"
    by (simp only: of_category.simps allowlist.simps example_skips)
  moreover from v [rule_format, OF a(1), of "[]"] s(1)
  have "visit example_runtime (JObj example_audits) ''image-alt'' [] = Inr []" by simp
  moreover from v [rule_format, OF a(2), of "[]"] s(2)
  have "visit example_runtime (JObj example_audits) ''label'' [] = Inr [f ''label'']" by simp
  moreover from g [rule_format, of "''image-alt''"] n(1) s(1)
  have "skipped_as_stated example_audits ''image-alt''" by simp
  moreover from g [rule_format, of "''label''"] n(2) s(2)
  have "\<not> skipped_as_stated example_audits ''label''" by simp
  ultimately show ?thesis by (intro exI conjI)
qed

text \<open>
  C1 as stated fails. An entry without a score is in none of the stated cases (the score
  is not null and not at least 1, title and description are there), and the extractor
  has no recommendation for it. An entry in none of the stated cases whose description
  is a number makes the extractor throw instead of appending.
\<close>

theorem extractor_record_without_score:
  "''label'' \<in> set (allowlist Accessibility) \<and>
   \<not> skipped_as_stated scoreless_audits ''label'' \<and>
   extractApiRecommendations example_runtime (JObj scoreless_audits) =
     Inr \<lparr>performance = [], accessibility = [], bestPractices = [], seo = []\<rparr> \<and>
   ''focus-traps'' \<in> set (allowlist Accessibility) \<and>
   \<not> skipped_as_stated malformed_audits ''focus-traps'' \<and>
   extractApiRecommendations example_runtime (JObj malformed_audits) = Inl TypeError"
  by code_simp

subsection \<open>Order\<close>

text \<open>
  C7. When the extractor returns, the recommendations of a category come from strictly
  increasing positions of that category's allowlist: the i-th one is what the callback
  appends for the identifier at the i-th of these positions. The scores play no part.
\<close>

theorem recommendations_in_allowlist_order:
  assumes "extractApiRecommendations rt audits = Inr r"
  shows "\<exists>ps. sorted_wrt (<) ps \<and> length ps = length (of_category c r) \<and>
     (\<forall>i<length ps. ps ! i < length (allowlist c) \<and>
        visit rt audits (allowlist c ! (ps ! i)) [] = Inr [of_category c r ! i])"
  using forEach_visit_positions [OF extract_category [OF assms, of c]] by auto

text \<open>
  In the example the audit with score 1/2 (impact Low) stands before the two with score 0
  (impact High), as the allowlist has them.
\<close>

theorem recommendations_in_allowlist_order_witness:
  "map impact (accessibility (projr (extractApiRecommendations example_runtime (JObj example_audits))))
     = [''Low'', ''High'', ''High''] \<and>
   (\<exists>ps. sorted_wrt (<) ps \<and> length ps = 3 \<and>
     (\<forall>i<length ps. ps ! i < length accessibilityAudits \<and>
        visit example_runtime (JObj example_audits) (accessibilityAudits ! (ps ! i)) [] =
        Inr [accessibility (projr (extractApiRecommendations example_runtime (JObj example_audits))) ! i]))"
  using recommendations_in_allowlist_order [OF example_extract, of Accessibility]
  by (simp add: example_extract numeral_3_eq_3)

subsection \<open>Totality\<close>

text \<open>
  C8, as the code has it. The callbacks test that the fields are there, not what they are.
  The extractor returns its four lists exactly when no listed identifier faults; each list
  then holds the records of the identifiers that are not skipped, so an entry with an
  absent, null or passing score or a falsy title or description is skipped without an
  exception. A listed identifier faults only when its entry has come that far and either
  its score is no primitive value and the conversion of the score to a number throws, or
  it is one of the three identifiers without friendly text and its description is truthy
  and no string.
\<close>

theorem extractApiRecommendations_returns_unless_faults:
  "((\<exists>r. extractApiRecommendations rt (JObj ps) = Inr r) =
      (\<forall>c. \<forall>k \<in> set (allowlist c). \<not> faults rt ps k)) \<and>
   (\<forall>r c. extractApiRecommendations rt (JObj ps) = Inr r \<longrightarrow>
      of_category c r = map (record_for rt ps) (filter (\<lambda>k. \<not> skips rt ps k) (allowlist c))) \<and>
   (\<forall>c k. k \<in> set (allowlist c) \<and> faults rt ps k \<longrightarrow>
      (\<exists>x. ToNumber rt (field (obj_get ps k) ''score'') = Inl x \<and>
           \<not> is_primitive (field (obj_get ps k) ''score'')) \<or>
      k \<in> set [''focus-traps'', ''focusable-controls'', ''interactive-element-affordance''])"
proof -
  have 3: "(\<exists>x. ToNumber rt (field (obj_get ps k) ''score'') = Inl x \<and>
           \<not> is_primitive (field (obj_get ps k) ''score'')) \<or>
      k \<in> set [''focus-traps'', ''focusable-controls'', ''interactive-element-affordance'']"
    if k: "k \<in> set (allowlist c)" and f: "faults rt ps k" for c k
  proof (cases "ToNumber rt (field (obj_get ps k) ''score'')")
    case (Inl x)
    with ToNumber_primitive [of "field (obj_get ps k) ''score''" rt]
    have "\<not> is_primitive (field (obj_get ps k) ''score'')" by auto
    with Inl show ?thesis by blast
  next
    case (Inr n)
    with f have "\<not> has_friendly_text k" by (simp add: faults_def Let_def)
    from without_friendly_text [OF k this] show ?thesis by blast
  qed
  from extract_returns_iff [of rt ps] category_lists [of rt ps] 3 show ?thesis by blast
qed

theorem extractApiRecommendations_returns_unless_faults_witness:
  "(\<exists>r. extractApiRecommendations example_runtime (JObj example_audits) = Inr r) \<and>
   faults example_runtime malformed_audits ''focus-traps'' \<and>
   (\<nexists>r. extractApiRecommendations example_runtime (JObj malformed_audits) = Inr r)"
proof -
  have "list_all (\<lambda>k. \<not> faults example_runtime example_audits k) performanceAudits"
    "list_all (\<lambda>k. \<not> faults example_runtime example_audits k) accessibilityAudits"
    "list_all (\<lambda>k. \<not> faults example_runtime example_audits k) bestPracticesAudits"
    "list_all (\<lambda>k. \<not> faults example_runtime example_audits k) seoAudits"
    by code_simp+
  then have "\<forall>k \<in> set (allowlist c). \<not> faults example_runtime example_audits k" for c
    by (cases c) (simp_all only: allowlist.simps list_all_iff)
  then have nf: "\<forall>c. \<forall>k \<in> set (allowlist c). \<not> faults example_runtime example_audits k" by blast
  have f: "faults example_runtime malformed_audits ''focus-traps''" by code_simp
  have a: "''focus-traps'' \<in> set (allowlist Accessibility)" by (simp add: accessibilityAudits_def)
  from extractApiRecommendations_returns_unless_faults [of example_runtime example_audits] nf
  have 1: "\<exists>r. extractApiRecommendations example_runtime (JObj example_audits) = Inr r" by blast
  from extractApiRecommendations_returns_unless_faults [of example_runtime malformed_audits] f a
  have 2: "\<nexists>r. extractApiRecommendations example_runtime (JObj malformed_audits) = Inr r" by blast
  from 1 f 2 show ?thesis by (intro conjI)
qed

text \<open>
  C8 as stated fails: a description that is a number, under an identifier with no
  friendly text, reaches \<^verbatim>\<open>description.match\<close> and the extractor throws; so does
  the comparison of a score that is an object with an own \<^verbatim>\<open>toString\<close> property.
\<close>

theorem extractApiRecommendations_throws:
  "extractApiRecommendations example_runtime (JObj malformed_audits) = Inl TypeError \<and>
   extractApiRecommendations object_runtime (JObj unconvertible_audits) = Inl TypeError"
  by code_simp

subsection \<open>Impact\<close>

text \<open>
  C2. The impact level of a numeric score is High at 0, Medium strictly between 0 and 0.5
  (so at 0.49) and Low from 0.5 (included) to 1: it is computed from the score alone,
  whatever the runtime.
\<close>

theorem getImpactLevel_boundaries:
  assumes "0 < a" "a < 1 / 2" "1 / 2 \<le> b" "b < 1"
  shows "getImpactLevel rt (JNum (Fin 0)) = Inr ''High'' \<and>
         getImpactLevel rt (JNum (Fin a)) = Inr ''Medium'' \<and>
         getImpactLevel rt (JNum (Fin b)) = Inr ''Low'' \<and>
         getImpactLevel rt (JNum (Fin (49 / 100))) = Inr ''Medium'' \<and>
         getImpactLevel rt (JNum (Fin (1 / 2))) = Inr ''Low''"
  using assms by (simp add: getImpactLevel_def js_less_def)

theorem getImpactLevel_boundaries_witness:
  "getImpactLevel example_runtime (JNum (Fin 0)) = Inr ''High'' \<and>
   getImpactLevel example_runtime (JNum (Fin (1 / 4))) = Inr ''Medium'' \<and>
   getImpactLevel example_runtime (JNum (Fin (3 / 4))) = Inr ''Low''"
  using getImpactLevel_boundaries [of "1 / 4" "3 / 4" example_runtime] by simp

subsection \<open>Friendly text\<close>

lemma document_title_declared_twice:
  "map snd (filter (\<lambda>e. fst e = ''document-title'') friendlyDescriptions_entries) =
   [''Your page is missing a title or has a generic title, which affects accessibility and SEO.'',
    ''Your page title is missing or not optimized, which hurts your search engine rankings.'']"
  by code_simp

lemma document_title_last_declared:
  "snd (last (filter (\<lambda>e. fst e = ''document-title'') friendlyDescriptions_entries)) =
   ''Your page title is missing or not optimized, which hurts your search engine rankings.''"
  by code_simp

text \<open>
  C3. The friendly text of an identifier does not depend on the category (the function is
  given none): for an identifier the table declares it is the text of the last
  declaration, whatever the entry's own description. \<^verbatim>\<open>document-title\<close> stands in
  the accessibility and in the SEO allowlist and is declared twice; both categories get
  the second text. A listed identifier that the table does not declare keeps the entry's
  description as it is.
\<close>

theorem getFriendlyDescription_last_declared:
  assumes "k \<in> fst ` set friendlyDescriptions_entries"
    and "k' \<in> set (allowlist c)" "k' \<notin> fst ` set friendlyDescriptions_entries"
  shows "getFriendlyDescription k d =
           JStr (snd (last (filter (\<lambda>e. fst e = k) friendlyDescriptions_entries))) \<and>
         ''document-title'' \<in> set (allowlist Accessibility) \<and>
         ''document-title'' \<in> set (allowlist Seo) \<and>
         map snd (filter (\<lambda>e. fst e = ''document-title'') friendlyDescriptions_entries) =
           [''Your page is missing a title or has a generic title, which affects accessibility and SEO.'',
            ''Your page title is missing or not optimized, which hurts your search engine rankings.''] \<and>
         getFriendlyDescription ''document-title'' d =
           JStr ''Your page title is missing or not optimized, which hurts your search engine rankings.'' \<and>
         getFriendlyDescription k' d = d"
proof -
  have "''document-title'' \<in> fst ` set friendlyDescriptions_entries"
    unfolding set_map [symmetric] friendly_keys by simp
  from getFriendlyDescription_declared [OF this, of d]
  have "getFriendlyDescription ''document-title'' d =
        JStr ''Your page title is missing or not optimized, which hurts your search engine rankings.''"
    by (simp only: document_title_last_declared)
  moreover have "''document-title'' \<in> set (allowlist Accessibility)"
    "''document-title'' \<in> set (allowlist Seo)"
    by (simp_all add: accessibilityAudits_def seoAudits_def)
  moreover note getFriendlyDescription_declared [OF assms(1), of d]
    getFriendlyDescription_undeclared [OF assms(3) allowlist_no_prototype_key [OF assms(2)], of d]
    document_title_declared_twice
  ultimately show ?thesis by (intro conjI)
qed

theorem getFriendlyDescription_last_declared_witness:
  "getFriendlyDescription ''label'' (JStr ''Form elements have labels'') =
     JStr ''Some form fields are missing labels, making it difficult for users with disabilities to understand what information to enter.'' \<and>
   getFriendlyDescription ''focus-traps'' (JStr ''Focus is trapped.'') = JStr ''Focus is trapped.''"
proof -
  have a: "''label'' \<in> fst ` set friendlyDescriptions_entries"
    unfolding set_map [symmetric] friendly_keys by simp
  have b: "''focus-traps'' \<in> set (allowlist Accessibility)"
    by (simp add: accessibilityAudits_def)
  have c: "''focus-traps'' \<notin> fst ` set friendlyDescriptions_entries"
    unfolding set_map [symmetric] friendly_keys by simp
  have d: "snd (last (filter (\<lambda>e. fst e = ''label'') friendlyDescriptions_entries)) =
    ''Some form fields are missing labels, making it difficult for users with disabilities to understand what information to enter.''"
    by code_simp
  from getFriendlyDescription_last_declared [OF a b c] d show ?thesis by simp
qed

subsection \<open>Descriptions\<close>

text \<open>
  What \<^verbatim>\<open>processDescription\<close> does with a text that holds a URL: the text it returns
  holds no match of the pattern any more, it neither ends with a full stop, a comma, a
  closing parenthesis or white space nor begins with white space, and the link is the
  leftmost match of the pattern in the original text.
\<close>

lemma url_at_Some_iff:
  "(url_at w \<noteq> None) =
   (\<exists>x rest. url_char x \<and> (w = ''https://'' @ x # rest \<or> w = ''http://'' @ x # rest))"
proof
  assume a: "url_at w \<noteq> None"
  show "\<exists>x rest. url_char x \<and> (w = ''https://'' @ x # rest \<or> w = ''http://'' @ x # rest)"
  proof (cases "take 8 w = ''https://''")
    case True
    with a have "takeWhile url_char (drop 8 w) \<noteq> []"
      by (auto simp: url_at_def Let_def split: if_splits)
    then obtain x ys where d: "drop 8 w = x # ys" and x: "url_char x"
      by (cases "drop 8 w") (auto split: if_splits)
    have "w = take 8 w @ drop 8 w" by simp
    with True d x show ?thesis by metis
  next
    case False
    with a have t: "take 7 w = ''http://''" and "takeWhile url_char (drop 7 w) \<noteq> []"
      by (auto simp: url_at_def Let_def split: if_splits)
    then obtain x ys where d: "drop 7 w = x # ys" and x: "url_char x"
      by (cases "drop 7 w") (auto split: if_splits)
    have "w = take 7 w @ drop 7 w" by simp
    with t d x show ?thesis by metis
  qed
next
  assume "\<exists>x rest. url_char x \<and> (w = ''https://'' @ x # rest \<or> w = ''http://'' @ x # rest)"
  then show "url_at w \<noteq> None"
    by (auto simp: url_at_def Let_def)
qed

lemma scheme_url_chars:
  "\<forall>c \<in> set ''https://''. url_char c" "\<forall>c \<in> set ''http://''. url_char c"
  by (simp_all add: url_char_def is_space_def)

lemma prefix_within:
  assumes "q @ e = p @ rest" "\<forall>c \<in> set p. url_char c" "e = [] \<or> \<not> url_char (hd e)"
  shows "\<exists>us. q = p @ us"
proof -
  from assms(1) obtain us where
    us: "(q = p @ us \<and> us @ e = rest) \<or> (q @ us = p \<and> e = us @ rest)"
    unfolding append_eq_append_conv2 by blast
  show ?thesis
  proof (cases "q = p @ us \<and> us @ e = rest")
    case True
    then show ?thesis by blast
  next
    case False
    with us have p: "q @ us = p" and e: "e = us @ rest" by blast+
    show ?thesis
    proof (cases us)
      case Nil
      with p have "q = p @ []" by simp
      then show ?thesis by blast
    next
      case (Cons x xs)
      with p e have "hd e \<in> set p" "e \<noteq> []" by auto
      with assms(2,3) show ?thesis by auto
    qed
  qed
qed

lemma url_at_extend:
  assumes "url_at (q @ e) \<noteq> None" "e = [] \<or> \<not> url_char (hd e)"
  shows "url_at (q @ z) \<noteq> None"
proof -
  from assms(1) obtain x rest where x: "url_char x"
    and w: "q @ e = ''https://'' @ x # rest \<or> q @ e = ''http://'' @ x # rest"
    unfolding url_at_Some_iff by blast
  from w show ?thesis
  proof
    assume "q @ e = ''https://'' @ x # rest"
    then have "q @ e = (''https://'' @ [x]) @ rest" by simp
    from prefix_within [OF this _ assms(2)] x scheme_url_chars(1)
    obtain us where "q = (''https://'' @ [x]) @ us" by auto
    then have "q @ z = ''https://'' @ x # (us @ z)" by simp
    with x show ?thesis unfolding url_at_Some_iff by blast
  next
    assume "q @ e = ''http://'' @ x # rest"
    then have "q @ e = (''http://'' @ [x]) @ rest" by simp
    from prefix_within [OF this _ assms(2)] x scheme_url_chars(2)
    obtain us where "q = (''http://'' @ [x]) @ us" by auto
    then have "q @ z = ''http://'' @ x # (us @ z)" by simp
    with x show ?thesis unfolding url_at_Some_iff by blast
  qed
qed

lemma url_at_rest: "url_at t = Some (u, r) \<Longrightarrow> r = [] \<or> \<not> url_char (hd r)"
  by (auto simp: url_at_def Let_def hd_dropWhile split: if_splits)

lemma url_at_not_url_char: "\<not> url_char x \<Longrightarrow> url_at (x # t) = None"
proof (rule ccontr)
  assume n: "\<not> url_char x" and "url_at (x # t) \<noteq> None"
  then obtain y rest where "x # t = ''https://'' @ y # rest \<or> x # t = ''http://'' @ y # rest"
    unfolding url_at_Some_iff by blast
  then have "x = CHR ''h''" by auto
  with n show False by (simp add: url_char_def is_space_def)
qed

lemma replace_front:
  "\<exists>q e z. replace_urlRegex s = q @ e \<and> s = q @ z \<and> (e = [] \<or> \<not> url_char (hd e))"
proof (induction s rule: replace_urlRegex.induct)
  case 1
  show ?case by simp
next
  case (2 c cs)
  show ?case
  proof (cases "url_at (c # cs)")
    case None
    with 2 obtain q e z where "replace_urlRegex cs = q @ e" "cs = q @ z"
      "e = [] \<or> \<not> url_char (hd e)" by blast
    with None have "replace_urlRegex (c # cs) = (c # q) @ e \<and> c # cs = (c # q) @ z \<and>
      (e = [] \<or> \<not> url_char (hd e))" by simp
    then show ?thesis by blast
  next
    case (Some a)
    obtain u r where a: "a = (u, r)" by (cases a)
    from Some a have rp: "replace_urlRegex (c # cs) = replace_urlRegex r" by simp
    from url_at_rest Some a have "r = [] \<or> \<not> url_char (hd r)" by blast
    then have "replace_urlRegex r = [] \<or> \<not> url_char (hd (replace_urlRegex r))"
      by (cases r) (auto simp: url_at_not_url_char)
    with rp have "replace_urlRegex (c # cs) = [] @ replace_urlRegex r \<and> c # cs = [] @ (c # cs) \<and>
      (replace_urlRegex r = [] \<or> \<not> url_char (hd (replace_urlRegex r)))" by simp
    then show ?thesis by blast
  qed
qed

lemma url_at_replace:
  assumes "url_at (c # cs) = None"
  shows "url_at (c # replace_urlRegex cs) = None"
proof (rule ccontr)
  assume n: "url_at (c # replace_urlRegex cs) \<noteq> None"
  from replace_front [of cs] obtain q e z where
    r: "replace_urlRegex cs = q @ e" and s: "cs = q @ z" and e: "e = [] \<or> \<not> url_char (hd e)"
    by blast
  from n r have "url_at ((c # q) @ e) \<noteq> None" by simp
  from url_at_extend [OF this e, of z] s assms show False by simp
qed

lemma match_replace: "match_urlRegex (replace_urlRegex s) = []"
proof (induction s rule: replace_urlRegex.induct)
  case 1
  show ?case by simp
next
  case (2 c cs)
  show ?case
  proof (cases "url_at (c # cs)")
    case None
    with 2 url_at_replace [OF None] show ?thesis by simp
  next
    case (Some a)
    with 2 show ?thesis by (cases a) auto
  qed
qed

lemma no_match_iff: "(match_urlRegex s = []) = (\<forall>n. url_at (drop n s) = None)"
proof (induction s)
  case Nil
  show ?case by (simp add: url_at_def)
next
  case (Cons c cs)
  have "(\<forall>n. url_at (drop n (c # cs)) = None) =
        (url_at (c # cs) = None \<and> (\<forall>n. url_at (drop n cs) = None))"
  proof
    assume a: "\<forall>n. url_at (drop n (c # cs)) = None"
    from a [rule_format, of 0] have "url_at (c # cs) = None" by simp
    moreover have "url_at (drop n cs) = None" for n using a [rule_format, of "Suc n"] by simp
    ultimately show "url_at (c # cs) = None \<and> (\<forall>n. url_at (drop n cs) = None)" by blast
  next
    assume a: "url_at (c # cs) = None \<and> (\<forall>n. url_at (drop n cs) = None)"
    show "\<forall>n. url_at (drop n (c # cs)) = None"
    proof
      fix n show "url_at (drop n (c # cs)) = None" using a by (cases n) auto
    qed
  qed
  with Cons show ?case by (auto split: option.splits)
qed

lemma no_match_drop: "match_urlRegex s = [] \<Longrightarrow> match_urlRegex (drop k s) = []"
  unfolding no_match_iff by simp

lemma no_match_take:
  assumes "match_urlRegex s = []"
  shows "match_urlRegex (take k s) = []"
  unfolding no_match_iff
proof
  fix n
  show "url_at (drop n (take k s)) = None"
  proof (rule ccontr)
    assume "url_at (drop n (take k s)) \<noteq> None"
    then have "url_at (take (k - n) (drop n s) @ []) \<noteq> None" by (simp add: drop_take)
    then have "url_at (take (k - n) (drop n s) @ drop (k - n) (drop n s)) \<noteq> None"
      by (rule url_at_extend) simp
    then have "url_at (drop n s) \<noteq> None" by (simp only: append_take_drop_id simp_thms)
    moreover from assms have "\<forall>n. url_at (drop n s) = None" by (simp only: no_match_iff simp_thms)
    ultimately show False by simp
  qed
qed

lemma rev_dropWhile_rev_take: "\<exists>k. rev (dropWhile P (rev s)) = take k s"
proof -
  define A where "A = rev (dropWhile P (rev s))"
  define B where "B = rev (takeWhile P (rev s))"
  have "A @ B = rev (takeWhile P (rev s) @ dropWhile P (rev s))"
    unfolding A_def B_def by (simp only: rev_append)
  then have "s = A @ B" by simp
  then have "A = take (length A) s" by simp
  then show ?thesis unfolding A_def by (rule exI)
qed

lemma no_match_trim:
  assumes "match_urlRegex s = []"
  shows "match_urlRegex (trim s) = []"
proof -
  have "dropWhile is_space s = drop (length (takeWhile is_space s)) s" by (rule dropWhile_eq_drop)
  with assms have d: "match_urlRegex (dropWhile is_space s) = []" by (simp add: no_match_drop)
  from rev_dropWhile_rev_take [of is_space "dropWhile is_space s"]
  obtain k where "trim s = take k (dropWhile is_space s)" unfolding trim_def by blast
  with no_match_take [OF d] show ?thesis by simp
qed

lemma no_match_replace_trailing:
  assumes "match_urlRegex s = []"
  shows "match_urlRegex (replace_trailing s) = []"
proof -
  from rev_dropWhile_rev_take [of trailing_char s]
  obtain k where "replace_trailing s = take k s" unfolding replace_trailing_def by blast
  with no_match_take [OF assms] show ?thesis by simp
qed

lemma replace_trailing_last:
  "replace_trailing s = [] \<or> \<not> trailing_char (last (replace_trailing s))"
proof (cases "dropWhile trailing_char (rev s) = []")
  case True
  then show ?thesis by (simp add: replace_trailing_def)
next
  case False
  then have "\<not> trailing_char (hd (dropWhile trailing_char (rev s)))" by (rule hd_dropWhile)
  with False show ?thesis by (simp add: replace_trailing_def last_rev)
qed

lemma trim_after_replace_trailing:
  assumes "x = [] \<or> \<not> trailing_char (last x)"
  shows "trim x = [] \<or> (\<not> trailing_char (last (trim x)) \<and> \<not> is_space (hd (trim x)))"
proof (cases "dropWhile is_space x = []")
  case True
  then have "trim x = []" unfolding trim_def by (simp only: rev.simps dropWhile.simps)
  then show ?thesis by (rule disjI1)
next
  case False
  let ?z = "dropWhile is_space x"
  from False have h: "\<not> is_space (hd ?z)" by (rule hd_dropWhile)
  have "x = takeWhile is_space x @ ?z" by simp
  with False have "last x = last ?z" by (metis last_appendR)
  moreover from False have "x \<noteq> []" by auto
  ultimately have l: "\<not> trailing_char (last ?z)" using assms by simp
  then have "\<not> is_space (hd (rev ?z))" using False by (simp add: hd_rev trailing_char_def)
  with False have "dropWhile is_space (rev ?z) = rev ?z" by (cases "rev ?z") auto
  then have "trim x = ?z" by (simp add: trim_def)
  with l h show ?thesis by simp
qed

lemma first_match:
  "match_urlRegex s \<noteq> [] \<Longrightarrow>
   \<exists>j r. (\<forall>i<j. url_at (drop i s) = None) \<and> url_at (drop j s) = Some (hd (match_urlRegex s), r)"
proof (induction s)
  case Nil
  then show ?case by simp
next
  case (Cons c cs)
  show ?case
  proof (cases "url_at (c # cs)")
    case (Some a)
    then have "(\<forall>i<0. url_at (drop i (c # cs)) = None) \<and>
      url_at (drop 0 (c # cs)) = Some (hd (match_urlRegex (c # cs)), snd a)"
      by (cases a) simp
    then show ?thesis by blast
  next
    case None
    with Cons.prems have "match_urlRegex cs \<noteq> []" and m: "match_urlRegex (c # cs) = match_urlRegex cs"
      by simp_all
    from Cons.IH [OF this(1)] obtain j r where
      j: "\<forall>i<j. url_at (drop i cs) = None" "url_at (drop j cs) = Some (hd (match_urlRegex cs), r)"
      by blast
    have "\<forall>i<Suc j. url_at (drop i (c # cs)) = None"
    proof (intro allI impI)
      fix i assume "i < Suc j"
      with j(1) None show "url_at (drop i (c # cs)) = None" by (cases i) auto
    qed
    moreover from j(2) m have "url_at (drop (Suc j) (c # cs)) = Some (hd (match_urlRegex (c # cs)), r)"
      by simp
    ultimately show ?thesis by blast
  qed
qed

lemma processDescription_with_url:
  assumes "match_urlRegex s \<noteq> []"
  shows "\<exists>t j r. processDescription (JStr s) =
              Inr (JObj [(''text'', JStr t), (''learnMoreUrl'', JStr (hd (match_urlRegex s)))]) \<and>
             match_urlRegex t = [] \<and>
             (t = [] \<or> (\<not> trailing_char (last t) \<and> \<not> is_space (hd t))) \<and>
             (\<forall>i<j. url_at (drop i s) = None) \<and>
             url_at (drop j s) = Some (hd (match_urlRegex s), r)"
proof -
  let ?t = "trim (replace_trailing (trim (replace_urlRegex s)))"
  from assms have "s \<noteq> []" by auto
  with assms have "processDescription (JStr s) =
      Inr (JObj [(''text'', JStr ?t), (''learnMoreUrl'', JStr (hd (match_urlRegex s)))])"
    by (simp add: processDescription_def Let_def)
  moreover have "match_urlRegex ?t = []"
    by (intro no_match_trim no_match_replace_trailing match_replace)
  moreover have "?t = [] \<or> (\<not> trailing_char (last ?t) \<and> \<not> is_space (hd ?t))"
    by (rule trim_after_replace_trailing) (rule replace_trailing_last)
  moreover note first_match [OF assms]
  ultimately show ?thesis by blast
qed

text \<open>
  C4. The clean-up after the URLs are removed takes a trailing full stop, comma, closing
  parenthesis or white space, and nothing else: the opening parenthesis that stood before
  a URL in parentheses stays at the end of the text.
\<close>

theorem processDescription_leaves_open_parenthesis:
  "processDescription (JStr ''More info (http://localhost/docs)'') =
   Inr (JObj [(''text'', JStr ''More info (''), (''learnMoreUrl'', JStr ''http://localhost/docs'')])"
  by (simp add: processDescription_def url_at_def url_char_def is_space_def trim_def
      replace_trailing_def trailing_char_def)

text \<open>
  C5, as the code has it. A text with no URL is returned as it is, white space at its ends
  included, so processing it again changes nothing.
\<close>

theorem processDescription_without_url:
  assumes "match_urlRegex s = []"
  shows "processDescription (JStr s) = Inr (JStr s) \<and>
         andThen (processDescription (JStr s)) processDescription = Inr (JStr s)"
  using assms by (simp add: processDescription_def andThen_def)

theorem processDescription_without_url_witness:
  "match_urlRegex '' No link here. '' = [] \<and>
   processDescription (JStr '' No link here. '') = Inr (JStr '' No link here. '') \<and>
   andThen (processDescription (JStr '' No link here. '')) processDescription =
     Inr (JStr '' No link here. '')"
proof -
  have h: "match_urlRegex '' No link here. '' = []"
    by (simp add: url_at_def)
  show ?thesis using h processDescription_without_url [OF h] by (rule conjI)
qed

text \<open>C5 as stated fails: the text is not trimmed.\<close>

theorem processDescription_not_trimmed:
  "match_urlRegex '' a'' = [] \<and>
   processDescription (JStr '' a'') \<noteq> Inr (JStr (trim '' a''))"
  by (simp add: processDescription_def url_at_def trim_def is_space_def)

section \<open>Properties of the proxy function\<close>

lemma error_Response_relayable:
  "relayable st \<Longrightarrow> error_Response m st = Inr (error_reply st m)"
  by (auto simp: error_Response_def new_Response_def relayable_def error_reply_def)

lemma error_Response_500: "error_Response m 500 = Inr (error_reply 500 m)"
  by (simp add: error_Response_relayable relayable_def)

lemma error_Response_400: "error_Response m 400 = Inr (error_reply 400 m)"
  by (simp add: error_Response_relayable relayable_def)

lemma new_Response_fields:
  "new_Response b st hs = Inr r \<Longrightarrow> headers r = hs \<and> body r = b"
  by (auto simp: new_Response_def Let_def split: if_splits)

lemma before_fetch_headers: "before_fetch pf ctx = Inr (Inl r) \<Longrightarrow> headers r = jsonHeaders \<and> body r \<noteq> None"
  by (auto simp: before_fetch_def andThen_def Let_def error_Response_500 error_Response_400
        error_reply_def split: if_splits sum.splits)

lemma after_fetch_headers: "after_fetch reply = Inr r \<Longrightarrow> headers r = jsonHeaders"
  by (auto simp: after_fetch_def andThen_def Let_def error_Response_def
        dest: new_Response_fields split: if_splits sum.splits)

lemma onRequestPost_method:
  "request_method ctx \<noteq> ''OPTIONS'' \<Longrightarrow>
   onRequestPost pf ctx =
     (case before_fetch pf ctx of
        Inl e \<Rightarrow> (Inr (error_reply 500 (JStr ''Internal server error'')), [])
      | Inr (Inl r) \<Rightarrow> (Inr r, [])
      | Inr (Inr u) \<Rightarrow>
          (case after_fetch (fetch pf u) of
             Inl e \<Rightarrow> (Inr (error_reply 500 (JStr ''Internal server error'')), [u])
           | Inr r \<Rightarrow> (Inr r, [u])))"
  by (simp add: onRequestPost_def error_Response_500 split: sum.splits)

text \<open>
  C9. Called with a request whose method is OPTIONS, the handler answers at once, before
  it reads the key or the body: status 200, the three CORS headers, no body, and nothing
  fetched.
\<close>

theorem options_preflight:
  assumes "request_method ctx = ''OPTIONS''"
  shows "onRequestPost pf ctx =
           (Inr \<lparr>status = 200,
                 headers = [(''Access-Control-Allow-Origin'', ''*''),
                            (''Access-Control-Allow-Methods'', ''POST, OPTIONS''),
                            (''Access-Control-Allow-Headers'', ''Content-Type'')],
                 body = None\<rparr>, [])"
  using assms by (simp add: onRequestPost_def new_Response_def corsHeaders_def)

text \<open>
  C10. Whatever the request and the reply of the upstream API, the handler returns a
  response (no exception leaves it) whose header \<^verbatim>\<open>Access-Control-Allow-Origin\<close> is
  \<^verbatim>\<open>*\<close>, and whose \<^verbatim>\<open>Content-Type\<close> is \<^verbatim>\<open>application/json\<close> when it has
  a body. This covers the preflight, the missing key, the missing URL, the upstream
  error, the success and the \<^verbatim>\<open>catch\<close> branch.
\<close>

theorem every_response_has_cors:
  "\<exists>r. fst (onRequestPost pf ctx) = Inr r \<and>
        map_of (headers r) ''Access-Control-Allow-Origin'' = Some ''*'' \<and>
        (body r \<noteq> None \<longrightarrow> map_of (headers r) ''Content-Type'' = Some ''application/json'')"
proof (cases "request_method ctx = ''OPTIONS''")
  case True
  then show ?thesis by (simp add: onRequestPost_def new_Response_def corsHeaders_def)
next
  case False
  have j: "map_of jsonHeaders ''Access-Control-Allow-Origin'' = Some ''*''"
    "map_of jsonHeaders ''Content-Type'' = Some ''application/json''"
    by (simp_all add: jsonHeaders_def corsHeaders_def)
  show ?thesis
    unfolding onRequestPost_method [OF False]
    by (auto simp: j error_reply_def split: sum.splits
          dest!: before_fetch_headers after_fetch_headers)
qed

lemma after_fetch_rejected: "after_fetch (Inl e) = Inl e"
  by (simp add: after_fetch_def andThen_def)

lemma get_all: "get d k = Inr v \<Longrightarrow> \<exists>w. get d k' = Inr w"
  by (cases d) auto

lemma before_fetch_no_key:
  "\<not> truthy (env_GOOGLE_PAGESPEED_API_KEY ctx) \<Longrightarrow>
   before_fetch pf ctx = Inr (Inl (error_reply 500 (JStr ''API key not configured'')))"
  by (simp add: before_fetch_def andThen_def error_Response_500)

lemma before_fetch_no_url:
  assumes "truthy (env_GOOGLE_PAGESPEED_API_KEY ctx)" "request_json ctx = Inr d"
    "get d ''url'' = Inr v" "\<not> truthy v"
  shows "before_fetch pf ctx = Inr (Inl (error_reply 400 (JStr ''URL is required'')))"
proof -
  from get_all [OF assms(3)] obtain s c where "get d ''strategy'' = Inr s" "get d ''categories'' = Inr c"
    by blast
  with assms show ?thesis
    by (simp add: before_fetch_def andThen_def error_Response_400)
qed

lemma before_fetch_bad_body:
  "truthy (env_GOOGLE_PAGESPEED_API_KEY ctx) \<Longrightarrow> request_json ctx = Inl e \<Longrightarrow>
   before_fetch pf ctx = Inl e"
  by (simp add: before_fetch_def andThen_def)

lemma error_Response_refused: "\<not> relayable st \<Longrightarrow> \<exists>e. error_Response m st = Inl e"
  by (auto simp: error_Response_def new_Response_def relayable_def)

lemma error_message_null: "error_message JNull = Inl TypeError"
  by (simp add: error_message_def andThen_def)

lemma relayable_403_429: "relayable 403" "relayable 429"
  by (simp_all add: relayable_def)

lemma after_fetch_upstream_error:
  assumes "\<not> ok (upstream_status up)"
  shows "after_fetch (Inr up) =
     (if upstream_status up = 403 then
        Inr (error_reply 403 (JStr ''API key is invalid or quota exceeded''))
      else if upstream_status up = 429 then
        Inr (error_reply 429 (JStr ''API rate limit exceeded. Please try again later''))
      else case error_message (case upstream_json up of Inl x \<Rightarrow> JObj [] | Inr j \<Rightarrow> j) of
             Inl e \<Rightarrow> Inl e
           | Inr m \<Rightarrow>
               error_Response (if truthy m then m else JStr ''API error occurred'')
                 (upstream_status up))"
  using assms
  by (auto simp: after_fetch_def andThen_def Let_def error_Response_relayable relayable_403_429
        split: sum.splits)

lemma before_fetch_null_body:
  "truthy (env_GOOGLE_PAGESPEED_API_KEY ctx) \<Longrightarrow> request_json ctx = Inr JNull \<Longrightarrow>
   before_fetch pf ctx = Inl TypeError"
  by (simp add: before_fetch_def andThen_def)

text \<open>
  C6, as the code has it. For a request that is no preflight:
  \<^item> no key configured: status 500, \<^verbatim>\<open>API key not configured\<close>, nothing fetched;
  \<^item> else a parsed body whose \<^verbatim>\<open>url\<close> is absent or falsy: status 400, nothing fetched;
  \<^item> whatever the \<^verbatim>\<open>try\<close> block throws is answered with status 500,
    \<^verbatim>\<open>Internal server error\<close>: before the fetch (a body that is not JSON, a body that
    is \<^verbatim>\<open>null\<close>, any other exception) with nothing fetched, after it (a rejected
    fetch, any other exception) with the one URL fetched;
  \<^item> an upstream status outside 200 to 299: 403 and 429 are passed on with their fixed
    text; any other status that a response with a body can carry (\<open>relayable\<close>) is
    passed on with the upstream \<^verbatim>\<open>error.message\<close> when that is truthy, else with
    \<^verbatim>\<open>API error occurred\<close>, provided the upstream error body is one whose
    \<^verbatim>\<open>error\<close> can be read; a status that \<^verbatim>\<open>new Response\<close> refuses with a
    body (304, or one outside 200 to 599) and an upstream error body that is
    \<^verbatim>\<open>null\<close> are exceptions of the block, answered with status 500;
  \<^item> the handler fetches at most once, failures included.
\<close>

theorem forwarder_error_taxonomy:
  assumes "request_method ctx \<noteq> ''OPTIONS''"
  shows
    "(\<not> truthy (env_GOOGLE_PAGESPEED_API_KEY ctx) \<longrightarrow>
        onRequestPost pf ctx = (Inr (error_reply 500 (JStr ''API key not configured'')), [])) \<and>
     (truthy (env_GOOGLE_PAGESPEED_API_KEY ctx) \<and> request_json ctx = Inr d \<and>
      get d ''url'' = Inr v \<and> \<not> truthy v \<longrightarrow>
        onRequestPost pf ctx = (Inr (error_reply 400 (JStr ''URL is required'')), [])) \<and>
     (truthy (env_GOOGLE_PAGESPEED_API_KEY ctx) \<and>
      (request_json ctx = Inl e \<or> request_json ctx = Inr JNull) \<longrightarrow>
        onRequestPost pf ctx = (Inr (error_reply 500 (JStr ''Internal server error'')), [])) \<and>
     (before_fetch pf ctx = Inl e \<longrightarrow>
        onRequestPost pf ctx = (Inr (error_reply 500 (JStr ''Internal server error'')), [])) \<and>
     (before_fetch pf ctx = Inr (Inr u) \<longrightarrow>
        (after_fetch (fetch pf u) = Inl e \<longrightarrow>
           onRequestPost pf ctx = (Inr (error_reply 500 (JStr ''Internal server error'')), [u])) \<and>
        (fetch pf u = Inl e \<longrightarrow>
           onRequestPost pf ctx = (Inr (error_reply 500 (JStr ''Internal server error'')), [u])) \<and>
        (fetch pf u = Inr up \<and> \<not> ok (upstream_status up) \<longrightarrow>
           (upstream_status up = 403 \<longrightarrow>
              onRequestPost pf ctx =
                (Inr (error_reply 403 (JStr ''API key is invalid or quota exceeded'')), [u])) \<and>
           (upstream_status up = 429 \<longrightarrow>
              onRequestPost pf ctx =
                (Inr (error_reply 429 (JStr ''API rate limit exceeded. Please try again later'')),
                 [u])) \<and>
           (upstream_status up \<noteq> 403 \<and> upstream_status up \<noteq> 429 \<and>
            relayable (upstream_status up) \<and>
            error_message (case upstream_json up of Inl x \<Rightarrow> JObj [] | Inr j \<Rightarrow> j) = Inr m \<longrightarrow>
              onRequestPost pf ctx =
                (Inr (error_reply (upstream_status up)
                        (if truthy m then m else JStr ''API error occurred'')), [u])) \<and>
           (upstream_status up \<noteq> 403 \<and> upstream_status up \<noteq> 429 \<and>
            (\<not> relayable (upstream_status up) \<or> upstream_json up = Inr JNull) \<longrightarrow>
              onRequestPost pf ctx =
                (Inr (error_reply 500 (JStr ''Internal server error'')), [u])))) \<and>
     length (snd (onRequestPost pf ctx)) \<le> 1"
proof -
  note m = onRequestPost_method [OF assms, of pf]
  let ?internal = "Inr (error_reply 500 (JStr ''Internal server error''))"
  let ?ed = "case upstream_json up of Inl x \<Rightarrow> JObj [] | Inr j \<Rightarrow> j"
  have 1: "\<not> truthy (env_GOOGLE_PAGESPEED_API_KEY ctx) \<longrightarrow>
        onRequestPost pf ctx = (Inr (error_reply 500 (JStr ''API key not configured'')), [])"
    by (simp add: m before_fetch_no_key)
  have 2: "truthy (env_GOOGLE_PAGESPEED_API_KEY ctx) \<and> request_json ctx = Inr d \<and>
      get d ''url'' = Inr v \<and> \<not> truthy v \<longrightarrow>
        onRequestPost pf ctx = (Inr (error_reply 400 (JStr ''URL is required'')), [])"
    by (auto simp: m before_fetch_no_url)
  have 3: "truthy (env_GOOGLE_PAGESPEED_API_KEY ctx) \<and>
      (request_json ctx = Inl e \<or> request_json ctx = Inr JNull) \<longrightarrow>
        onRequestPost pf ctx = (?internal, [])"
    by (auto simp: m before_fetch_bad_body before_fetch_null_body)
  have 4: "before_fetch pf ctx = Inl e \<longrightarrow> onRequestPost pf ctx = (?internal, [])"
    by (simp add: m)
  have 5: "onRequestPost pf ctx = (?internal, [u])"
    if "before_fetch pf ctx = Inr (Inr u)" "after_fetch (fetch pf u) = Inl e"
    using that by (simp add: m)
  have 6: "onRequestPost pf ctx = (?internal, [u])"
    if "before_fetch pf ctx = Inr (Inr u)" "fetch pf u = Inl e"
    using that by (simp add: m after_fetch_rejected)
  have 7: "onRequestPost pf ctx =
             (Inr (error_reply 403 (JStr ''API key is invalid or quota exceeded'')), [u])"
    if "before_fetch pf ctx = Inr (Inr u)" "fetch pf u = Inr up" "\<not> ok (upstream_status up)"
      "upstream_status up = 403"
    using that by (simp add: m after_fetch_upstream_error)
  have 8: "onRequestPost pf ctx =
             (Inr (error_reply 429 (JStr ''API rate limit exceeded. Please try again later'')), [u])"
    if "before_fetch pf ctx = Inr (Inr u)" "fetch pf u = Inr up" "\<not> ok (upstream_status up)"
      "upstream_status up = 429"
    using that by (simp add: m after_fetch_upstream_error)
  have 9: "onRequestPost pf ctx =
             (Inr (error_reply (upstream_status up)
                     (if truthy m then m else JStr ''API error occurred'')), [u])"
    if "before_fetch pf ctx = Inr (Inr u)" "fetch pf u = Inr up" "\<not> ok (upstream_status up)"
      "upstream_status up \<noteq> 403" "upstream_status up \<noteq> 429" "relayable (upstream_status up)"
      "error_message ?ed = Inr m"
    using that by (simp add: m after_fetch_upstream_error error_Response_relayable)
  have 10: "onRequestPost pf ctx = (?internal, [u])"
    if b: "before_fetch pf ctx = Inr (Inr u)" and f: "fetch pf u = Inr up"
      and n: "\<not> ok (upstream_status up)"
      and s: "upstream_status up \<noteq> 403" "upstream_status up \<noteq> 429"
      and r: "\<not> relayable (upstream_status up) \<or> upstream_json up = Inr JNull"
  proof -
    have "\<exists>x. after_fetch (Inr up) = Inl x"
    proof (cases "error_message ?ed")
      case (Inl x)
      with n s show ?thesis by (simp add: after_fetch_upstream_error)
    next
      case (Inr y)
      with r have nr: "\<not> relayable (upstream_status up)" by (auto simp: error_message_null)
      from error_Response_refused [OF nr, of "if truthy y then y else JStr ''API error occurred''"]
      obtain x where "error_Response (if truthy y then y else JStr ''API error occurred'')
                        (upstream_status up) = Inl x" ..
      with Inr n s show ?thesis by (simp add: after_fetch_upstream_error)
    qed
    then obtain x where "after_fetch (Inr up) = Inl x" ..
    with b f show ?thesis by (simp add: m)
  qed
  have 11: "length (snd (onRequestPost pf ctx)) \<le> 1"
    by (simp add: m split: sum.splits)
  from 1 2 3 4 5 6 7 8 9 10 11 show ?thesis by (intro conjI impI) (elim conjE | assumption | blast)+
qed


lemma example_before_fetch:
  "before_fetch (example_platform reply) (example_request ''POST'' (JStr ''k'') (Inr example_body)) =
   Inr (Inr example_url)"
  by (simp add: before_fetch_def andThen_def example_platform_def example_request_def
      example_body_def example_url_def obj_get_def or_default_def Object_prototype_keys_def)

lemma example_not_preflight:
  "request_method (example_request ''POST'' key parsed) \<noteq> ''OPTIONS''"
  by (simp add: example_request_def)

lemma example_key:
  "env_GOOGLE_PAGESPEED_API_KEY (example_request method key parsed) = key"
  "request_json (example_request method key parsed) = parsed"
  by (simp_all add: example_request_def)

lemma example_fetch: "fetch (example_platform reply) u = reply"
  by (simp add: example_platform_def)

theorem forwarder_error_taxonomy_witness:
  "onRequestPost (example_platform (Inl TypeError)) (example_request ''POST'' JUndefined (Inr example_body)) =
     (Inr (error_reply 500 (JStr ''API key not configured'')), []) \<and>
   onRequestPost (example_platform (Inl TypeError)) (example_request ''POST'' (JStr ''k'') (Inr (JObj []))) =
     (Inr (error_reply 400 (JStr ''URL is required'')), []) \<and>
   onRequestPost (example_platform (Inl TypeError)) (example_request ''POST'' (JStr ''k'') (Inl SyntaxError)) =
     (Inr (error_reply 500 (JStr ''Internal server error'')), []) \<and>
   onRequestPost (example_platform (Inl TypeError)) (example_request ''POST'' (JStr ''k'') (Inr example_body)) =
     (Inr (error_reply 500 (JStr ''Internal server error'')), [example_url]) \<and>
   onRequestPost (example_platform (Inr (example_upstream 403))) (example_request ''POST'' (JStr ''k'') (Inr example_body)) =
     (Inr (error_reply 403 (JStr ''API key is invalid or quota exceeded'')), [example_url]) \<and>
   onRequestPost (example_platform (Inr (example_upstream 429))) (example_request ''POST'' (JStr ''k'') (Inr example_body)) =
     (Inr (error_reply 429 (JStr ''API rate limit exceeded. Please try again later'')), [example_url]) \<and>
   onRequestPost (example_platform (Inr (example_upstream 404))) (example_request ''POST'' (JStr ''k'') (Inr example_body)) =
     (Inr (error_reply 404 (JStr ''Not found'')), [example_url]) \<and>
   onRequestPost (example_platform (Inr \<lparr>upstream_status = 502, upstream_json = Inl SyntaxError\<rparr>))
       (example_request ''POST'' (JStr ''k'') (Inr example_body)) =
     (Inr (error_reply 502 (JStr ''API error occurred'')), [example_url]) \<and>
   onRequestPost (example_platform (Inr (example_upstream 304))) (example_request ''POST'' (JStr ''k'') (Inr example_body)) =
     (Inr (error_reply 500 (JStr ''Internal server error'')), [example_url])"
proof -
  let ?post = "example_request ''POST'' (JStr ''k'') (Inr example_body)"
  note b = example_before_fetch
  have c1: "onRequestPost (example_platform (Inl TypeError)) (example_request ''POST'' JUndefined (Inr example_body)) =
     (Inr (error_reply 500 (JStr ''API key not configured'')), [])"
    using forwarder_error_taxonomy [where ctx = "example_request ''POST'' (JUndefined) (Inr example_body)"
               and pf = "example_platform (Inl TypeError)", OF example_not_preflight]
    by (simp add: example_key)
  have c2: "onRequestPost (example_platform (Inl TypeError)) (example_request ''POST'' (JStr ''k'') (Inr (JObj []))) =
     (Inr (error_reply 400 (JStr ''URL is required'')), [])"
    using forwarder_error_taxonomy [where ctx = "example_request ''POST'' (JStr ''k'') (Inr (JObj []))"
               and pf = "example_platform (Inl TypeError)" and d = "JObj []" and v = JUndefined, OF example_not_preflight]
    by (simp add: example_key obj_get_def Object_prototype_keys_def)
  have c3: "onRequestPost (example_platform (Inl TypeError)) (example_request ''POST'' (JStr ''k'') (Inl SyntaxError)) =
     (Inr (error_reply 500 (JStr ''Internal server error'')), [])"
    using forwarder_error_taxonomy [where ctx = "example_request ''POST'' (JStr ''k'') (Inl SyntaxError)"
               and pf = "example_platform (Inl TypeError)" and e = SyntaxError, OF example_not_preflight]
    by (simp add: example_key)
  have c4: "onRequestPost (example_platform (Inl TypeError)) ?post =
     (Inr (error_reply 500 (JStr ''Internal server error'')), [example_url])"
    using forwarder_error_taxonomy [where ctx = "example_request ''POST'' (JStr ''k'') (Inr example_body)"
               and pf = "example_platform (Inl TypeError)" and u = example_url and e = TypeError, OF example_not_preflight]
    by (simp add: b example_fetch)
  have c5: "onRequestPost (example_platform (Inr (example_upstream 403))) ?post =
     (Inr (error_reply 403 (JStr ''API key is invalid or quota exceeded'')), [example_url])"
    using forwarder_error_taxonomy [where ctx = "example_request ''POST'' (JStr ''k'') (Inr example_body)"
               and pf = "example_platform (Inr (example_upstream 403))" and u = example_url
               and up = "example_upstream 403", OF example_not_preflight]
    by (simp add: b example_fetch) (simp add: example_upstream_def ok_def)
  have c6: "onRequestPost (example_platform (Inr (example_upstream 429))) ?post =
     (Inr (error_reply 429 (JStr ''API rate limit exceeded. Please try again later'')), [example_url])"
    using forwarder_error_taxonomy [where ctx = "example_request ''POST'' (JStr ''k'') (Inr example_body)"
               and pf = "example_platform (Inr (example_upstream 429))" and u = example_url
               and up = "example_upstream 429", OF example_not_preflight]
    by (simp add: b example_fetch) (simp add: example_upstream_def ok_def)
  have c7: "onRequestPost (example_platform (Inr (example_upstream 404))) ?post =
     (Inr (error_reply 404 (JStr ''Not found'')), [example_url])"
    using forwarder_error_taxonomy [where ctx = "example_request ''POST'' (JStr ''k'') (Inr example_body)"
               and pf = "example_platform (Inr (example_upstream 404))" and u = example_url
               and up = "example_upstream 404" and m = "JStr ''Not found''", OF example_not_preflight]
    by (simp add: b example_fetch)
       (simp add: example_upstream_def ok_def relayable_def error_message_def andThen_def
          obj_get_def)
  have c8: "onRequestPost (example_platform (Inr \<lparr>upstream_status = 502, upstream_json = Inl SyntaxError\<rparr>)) ?post =
     (Inr (error_reply 502 (JStr ''API error occurred'')), [example_url])"
    using forwarder_error_taxonomy [where ctx = "example_request ''POST'' (JStr ''k'') (Inr example_body)"
               and pf = "example_platform (Inr \<lparr>upstream_status = 502, upstream_json = Inl SyntaxError\<rparr>)"
               and u = example_url
               and up = "\<lparr>upstream_status = 502, upstream_json = Inl SyntaxError\<rparr>"
               and m = JUndefined, OF example_not_preflight]
    by (simp add: b example_fetch)
       (simp add: ok_def relayable_def error_message_def andThen_def obj_get_def
          Object_prototype_keys_def)
  have c9: "onRequestPost (example_platform (Inr (example_upstream 304))) ?post =
     (Inr (error_reply 500 (JStr ''Internal server error'')), [example_url])"
    using forwarder_error_taxonomy [where ctx = "example_request ''POST'' (JStr ''k'') (Inr example_body)"
               and pf = "example_platform (Inr (example_upstream 304))" and u = example_url
               and up = "example_upstream 304", OF example_not_preflight]
    by (simp add: b example_fetch) (simp add: example_upstream_def ok_def relayable_def)
  from c1 c2 c3 c4 c5 c6 c7 c8 c9 show ?thesis by (intro conjI)
qed

text \<open>
  C6 as stated fails: an upstream 404 whose body is the JSON value \<^verbatim>\<open>null\<close>, and an
  upstream 304, are answered with status 500, not with the upstream status.
\<close>

theorem forwarder_answers_500_for_upstream_error:
  "onRequestPost (example_platform (Inr \<lparr>upstream_status = 404, upstream_json = Inr JNull\<rparr>))
       (example_request ''POST'' (JStr ''k'') (Inr example_body)) =
     (Inr (error_reply 500 (JStr ''Internal server error'')), [example_url]) \<and>
   onRequestPost (example_platform (Inr (example_upstream 304)))
       (example_request ''POST'' (JStr ''k'') (Inr example_body)) =
     (Inr (error_reply 500 (JStr ''Internal server error'')), [example_url])"
  by (simp add: onRequestPost_method [OF example_not_preflight] example_before_fetch example_fetch)
     (simp add: after_fetch_def andThen_def ok_def example_upstream_def error_message_def
        error_Response_def new_Response_def obj_get_def)

theorem options_preflight_witness:
  "onRequestPost (example_platform (Inl TypeError)) (example_request ''OPTIONS'' (JStr ''k'') (Inl SyntaxError)) =
     (Inr \<lparr>status = 200,
           headers = [(''Access-Control-Allow-Origin'', ''*''),
                      (''Access-Control-Allow-Methods'', ''POST, OPTIONS''),
                      (''Access-Control-Allow-Headers'', ''Content-Type'')],
           body = None\<rparr>, [])"
  using options_preflight [of "example_request ''OPTIONS'' (JStr ''k'') (Inl SyntaxError)"]
  by (simp add: example_request_def)

theorem every_response_has_cors_witness:
  "\<exists>r. fst (onRequestPost (example_platform (Inr \<lparr>upstream_status = 200, upstream_json = Inr example_report\<rparr>))
              (example_request ''POST'' (JStr ''k'') (Inr example_body))) = Inr r \<and>
        map_of (headers r) ''Access-Control-Allow-Origin'' = Some ''*'' \<and>
        body r = Some example_report \<and>
        map_of (headers r) ''Content-Type'' = Some ''application/json''"
proof -
  have "fst (onRequestPost (example_platform (Inr \<lparr>upstream_status = 200, upstream_json = Inr example_report\<rparr>))
              (example_request ''POST'' (JStr ''k'') (Inr example_body))) =
        Inr \<lparr>status = 200, headers = jsonHeaders, body = Some example_report\<rparr>"
    by (simp add: onRequestPost_def example_before_fetch)
       (simp add: example_request_def example_platform_def after_fetch_def andThen_def ok_def
          new_Response_def)
  with every_response_has_cors
    [of "example_platform (Inr \<lparr>upstream_status = 200, upstream_json = Inr example_report\<rparr>)"
        "example_request ''POST'' (JStr ''k'') (Inr example_body)"]
  show ?thesis by auto
qed

end
